theory Spec2Isabelle
  imports Main "HOL-Library.AList"
begin

section \<open>Resources of the cluster\<close>

text \<open>
  The tool of \<^verbatim>\<open>main.go\<close> reads Certificate, Secret and CertificateRequest resources
  of a Kubernetes cluster. Only the fields the program reads or writes are kept. A Go
  byte slice is a \<open>char list\<close>; a slice or a map that may be \<^verbatim>\<open>nil\<close> is an
  \<open>option\<close>, with \<open>None\<close> for \<^verbatim>\<open>nil\<close>. A Go map is an association list that is
  read with \<open>map_of\<close> and written with \<open>AList.update\<close>.
\<close>

type_synonym bytes = "char list"

record certificate =
  crt_namespace :: string
  crt_name :: string
  crt_uid :: string
  crt_secretName :: string

record secret =
  sec_namespace :: string
  sec_name :: string
  sec_annotations :: "(string \<times> string) list option"
  sec_data :: "(string \<times> bytes option) list option"

record certificateRequest =
  req_namespace :: string
  req_name :: string
  req_controller :: "string option"
  req_certificate :: bytes

record x509Certificate =
  serialNumber :: int

datatype error =
    ApiError string
  | NotFound
  | DecodeError string
  | Wrapped string error
  | ErrWaitTimeout
  | Panic string

text \<open>The keys \<^verbatim>\<open>core.TLSCertKey\<close> and \<^verbatim>\<open>capi.IssuerNameAnnotationKey\<close>.\<close>

definition TLSCertKey :: string where
  "TLSCertKey = ''tls.crt''"

definition IssuerNameAnnotationKey :: string where
  "IssuerNameAnnotationKey = ''cert-manager.io/issuer-name''"

text \<open>
  Reading a Go map: a \<^verbatim>\<open>nil\<close> map and a missing key both give the zero value, which
  for a byte slice is \<^verbatim>\<open>nil\<close>.
\<close>

definition mapIndex :: "(string \<times> bytes option) list option \<Rightarrow> string \<Rightarrow> bytes option" where
  "mapIndex m k =
     (case m of
        None \<Rightarrow> None
      | Some al \<Rightarrow> (case map_of al k of None \<Rightarrow> None | Some v \<Rightarrow> v))"

text \<open>Writing a Go map: the assignment panics on a \<^verbatim>\<open>nil\<close> map.\<close>

definition mapAssign ::
  "string \<Rightarrow> string \<Rightarrow> (string \<times> string) list option \<Rightarrow> error + (string \<times> string) list option" where
  "mapAssign k v m =
     (case m of
        None \<Rightarrow> Inl (Panic ''assignment to entry in nil map'')
      | Some al \<Rightarrow> Inr (Some (AList.update k v al)))"

text \<open>
  \<^verbatim>\<open>cert.SerialNumber.String()\<close>: the decimal digits of the serial number, with a
  minus sign for a negative one.
\<close>

definition digitChar :: "nat \<Rightarrow> char" where
  "digitChar d = ''0123456789'' ! d"

function natString :: "nat \<Rightarrow> string" where
  "natString n = (if n < 10 then [digitChar n] else natString (n div 10) @ [digitChar (n mod 10)])"
  by pat_completeness auto
termination
  by (relation "measure id") auto

declare natString.simps [simp del]

definition bigIntString :: "int \<Rightarrow> string" where
  "bigIntString i = (if i < 0 then CHR ''-'' # natString (nat (- i)) else natString (nat i))"

text \<open>
  Modelled from the spec: \<^verbatim>\<open>metav1.IsControlledBy\<close> belongs to the Kubernetes API
  machinery and is not under src/. A renewal request has an owner relation back to one
  certificate declaration; the request is controlled by the certificate when the UID of
  its controlling owner is the UID of the certificate.
\<close>

definition isControlledBy :: "certificateRequest \<Rightarrow> certificate \<Rightarrow> bool" where
  "isControlledBy req cert =
     (case req_controller req of None \<Rightarrow> False | Some u \<Rightarrow> u = crt_uid cert)"

section \<open>Analysis: lines 84 to 125 of run\<close>

text \<open>
  \<^verbatim>\<open>makeSecretsMap\<close>: the secrets by the string \<^verbatim>\<open>Namespace + "/" + Name\<close>; a later
  secret with the same string replaces an earlier one.
\<close>

definition makeSecretsMap :: "secret list \<Rightarrow> (string \<rightharpoonup> secret)" where
  "makeSecretsMap items = fold (\<lambda>s m. m(sec_namespace s @ ''/'' @ sec_name s \<mapsto> s)) items Map.empty"

text \<open>
  \<^verbatim>\<open>pki.DecodeX509CertificateBytes\<close> belongs to cert-manager and is not under src/: the
  decoder is a parameter of the analysis.
\<close>

type_synonym decoder = "bytes \<Rightarrow> error + x509Certificate"

text \<open>
  Lines 91 to 108 of the loop body: the secret of a certificate is looked up, its
  \<^verbatim>\<open>tls.crt\<close> entry is read and decoded. Each of the three failures logs its own message,
  counts the certificate as skipped and continues with the next certificate.
\<close>

datatype skipReason = SecretNotFound | NoData | DecodeFailed error

definition correlate ::
  "decoder \<Rightarrow> (string \<rightharpoonup> secret) \<Rightarrow> certificate \<Rightarrow> skipReason + (secret \<times> x509Certificate)" where
  "correlate decode secretsMap crt =
     (case secretsMap (crt_namespace crt @ ''/'' @ crt_secretName crt) of
        None \<Rightarrow> Inl SecretNotFound
      | Some secret \<Rightarrow>
          if sec_data secret = None \<or> mapIndex (sec_data secret) TLSCertKey = None
          then Inl NoData
          else
            (let certPEM = (case mapIndex (sec_data secret) TLSCertKey of None \<Rightarrow> [] | Some b \<Rightarrow> b)
             in case decode certPEM of
                  Inl err \<Rightarrow> Inl (DecodeFailed err)
                | Inr cert \<Rightarrow> Inr (secret, cert)))"

text \<open>
  Lines 112 to 120: the loop over the annotations of the secret, on the pair of the
  \<^verbatim>\<open>skip\<close> flag and the \<^verbatim>\<open>skipped\<close> counter. The \<^verbatim>\<open>continue\<close> of line 117 continues
  this inner loop.
\<close>

fun filterByIssuer :: "string \<Rightarrow> (string \<times> string) list \<Rightarrow> bool \<times> nat \<Rightarrow> bool \<times> nat" where
  "filterByIssuer issuerName [] st = st"
| "filterByIssuer issuerName ((key, val) # rest) (skip, skipped) =
     (if key = ''cert-manager.io/issuer-name''
      then (if val \<noteq> issuerName
            then filterByIssuer issuerName rest (True, skipped + 1)
            else filterByIssuer issuerName rest (skip, skipped))
      else filterByIssuer issuerName rest (skip, skipped))"

text \<open>
  Ranging over a \<^verbatim>\<open>nil\<close> map runs no iteration.
\<close>

definition annotationItems :: "secret \<Rightarrow> (string \<times> string) list" where
  "annotationItems s = (case sec_annotations s of None \<Rightarrow> [] | Some al \<Rightarrow> al)"

text \<open>
  The whole loop body, on the pair of the \<^verbatim>\<open>skipped\<close> counter and the map
  \<^verbatim>\<open>serialsToCertificates\<close>.
\<close>

definition checkCertificate ::
  "string \<Rightarrow> decoder \<Rightarrow> (string \<rightharpoonup> secret) \<Rightarrow> certificate \<Rightarrow>
   nat \<times> (string \<times> certificate) list \<Rightarrow> nat \<times> (string \<times> certificate) list" where
  "checkCertificate issuerName decode secretsMap crt st =
     (case st of (skipped, serialsToCertificates) \<Rightarrow>
       (case correlate decode secretsMap crt of
          Inl reason \<Rightarrow> (skipped + 1, serialsToCertificates)
        | Inr (secret, cert) \<Rightarrow>
            (case (if issuerName \<noteq> ''''
                   then filterByIssuer issuerName (annotationItems secret) (False, skipped)
                   else (False, skipped)) of
               (skip, skipped') \<Rightarrow>
                 if \<not> skip
                 then (skipped', AList.update (bigIntString (serialNumber cert)) crt serialsToCertificates)
                 else (skipped', serialsToCertificates))))"

definition analyse ::
  "string \<Rightarrow> decoder \<Rightarrow> secret list \<Rightarrow> certificate list \<Rightarrow> nat \<times> (string \<times> certificate) list" where
  "analyse issuerName decode secretItems certs =
     fold (checkCertificate issuerName decode (makeSecretsMap secretItems)) certs (0, [])"

section \<open>The backing store\<close>

text \<open>
  Modelled from the spec: the API client (\<^verbatim>\<open>cl.List\<close>, \<^verbatim>\<open>cl.Get\<close>, \<^verbatim>\<open>cl.Update\<close>,
  \<^verbatim>\<open>cl.Delete\<close>) and the cluster behind it are not under src/. The world holds the
  resources of the cluster, a clock in seconds, the timed actions of the other actors of
  the cluster (the external controller creates a renewal request in reaction to the
  annotation), the outcomes of the coming API calls (\<open>Some msg\<close> makes the next call fail)
  and the trace of what the program has done so far: its API calls, its sleeps and the
  counts it has printed.
\<close>

datatype action =
    ListCertificates
  | ListSecrets
  | ListCertificateRequests string
  | DeleteCertificateRequest string string
  | GetSecret string string
  | UpdateSecret secret
  | Sleep nat
  | PrintFound nat
  | PrintResults nat nat

datatype event =
    CreateRequest certificateRequest
  | RemoveRequest string string

record world =
  certificates :: "certificate list"
  secrets :: "secret list"
  requests :: "certificateRequest list"
  clock :: nat
  pending :: "(nat \<times> event) list"
  faults :: "string option list"
  trace :: "action list"

definition apiCall :: "action \<Rightarrow> world \<Rightarrow> string option \<times> world" where
  "apiCall a w =
     (case faults w of
        [] \<Rightarrow> (None, w\<lparr>trace := trace w @ [a]\<rparr>)
      | f # fs \<Rightarrow> (f, w\<lparr>faults := fs, trace := trace w @ [a]\<rparr>))"

definition listCertificates :: "world \<Rightarrow> (error + certificate list) \<times> world" where
  "listCertificates w =
     (case apiCall ListCertificates w of
        (Some msg, w') \<Rightarrow> (Inl (ApiError msg), w')
      | (None, w') \<Rightarrow> (Inr (certificates w'), w'))"

definition listSecrets :: "world \<Rightarrow> (error + secret list) \<times> world" where
  "listSecrets w =
     (case apiCall ListSecrets w of
        (Some msg, w') \<Rightarrow> (Inl (ApiError msg), w')
      | (None, w') \<Rightarrow> (Inr (secrets w'), w'))"

definition listCertificateRequests :: "string \<Rightarrow> world \<Rightarrow> (error + certificateRequest list) \<times> world" where
  "listCertificateRequests ns w =
     (case apiCall (ListCertificateRequests ns) w of
        (Some msg, w') \<Rightarrow> (Inl (ApiError msg), w')
      | (None, w') \<Rightarrow> (Inr (filter (\<lambda>r. req_namespace r = ns) (requests w')), w'))"

definition sameRequest :: "string \<Rightarrow> string \<Rightarrow> certificateRequest \<Rightarrow> bool" where
  "sameRequest ns n r = (req_namespace r = ns \<and> req_name r = n)"

definition deleteCertificateRequest :: "certificateRequest \<Rightarrow> world \<Rightarrow> error option \<times> world" where
  "deleteCertificateRequest req w =
     (case apiCall (DeleteCertificateRequest (req_namespace req) (req_name req)) w of
        (Some msg, w') \<Rightarrow> (Some (ApiError msg), w')
      | (None, w') \<Rightarrow>
          if list_ex (sameRequest (req_namespace req) (req_name req)) (requests w')
          then (None, w'\<lparr>requests :=
                  filter (\<lambda>r. \<not> sameRequest (req_namespace req) (req_name req) r) (requests w')\<rparr>)
          else (Some NotFound, w'))"

definition sameSecret :: "string \<Rightarrow> string \<Rightarrow> secret \<Rightarrow> bool" where
  "sameSecret ns n s = (sec_namespace s = ns \<and> sec_name s = n)"

definition getSecret :: "string \<Rightarrow> string \<Rightarrow> world \<Rightarrow> (error + secret) \<times> world" where
  "getSecret ns n w =
     (case apiCall (GetSecret ns n) w of
        (Some msg, w') \<Rightarrow> (Inl (ApiError msg), w')
      | (None, w') \<Rightarrow>
          (case find (sameSecret ns n) (secrets w') of
             None \<Rightarrow> (Inl NotFound, w')
           | Some s \<Rightarrow> (Inr s, w')))"

definition updateSecret :: "secret \<Rightarrow> world \<Rightarrow> error option \<times> world" where
  "updateSecret s w =
     (case apiCall (UpdateSecret s) w of
        (Some msg, w') \<Rightarrow> (Some (ApiError msg), w')
      | (None, w') \<Rightarrow>
          if list_ex (sameSecret (sec_namespace s) (sec_name s)) (secrets w')
          then (None, w'\<lparr>secrets :=
                  map (\<lambda>t. if sameSecret (sec_namespace s) (sec_name s) t then s else t) (secrets w')\<rparr>)
          else (Some NotFound, w'))"

text \<open>
  Time passing: the clock advances and the actions of the other actors that are due by
  the new time take place, in the order of the list.
\<close>

fun applyEvent :: "event \<Rightarrow> certificateRequest list \<Rightarrow> certificateRequest list" where
  "applyEvent (CreateRequest r) rs = rs @ [r]"
| "applyEvent (RemoveRequest ns n) rs = filter (\<lambda>r. \<not> sameRequest ns n r) rs"

definition elapse :: "nat \<Rightarrow> world \<Rightarrow> world" where
  "elapse d w =
     w\<lparr>clock := clock w + d,
       requests := fold applyEvent (map snd (filter (\<lambda>(t, e). t \<le> clock w + d) (pending w))) (requests w),
       pending := filter (\<lambda>(t, e). \<not> t \<le> clock w + d) (pending w)\<rparr>"

definition sleep :: "nat \<Rightarrow> world \<Rightarrow> world" where
  "sleep d w = elapse d (w\<lparr>trace := trace w @ [Sleep d]\<rparr>)"

definition printf :: "action \<Rightarrow> world \<Rightarrow> world" where
  "printf a w = w\<lparr>trace := trace w @ [a]\<rparr>"

text \<open>The durations \<^verbatim>\<open>time.Second\<close> and \<^verbatim>\<open>time.Minute\<close>, in seconds.\<close>

definition second :: nat where
  "second = 1"

definition minute :: nat where
  "minute = 60 * second"

text \<open>
  Modelled from the spec: \<^verbatim>\<open>wait.Poll\<close> belongs to the Kubernetes API machinery and is
  not under src/. It is a bounded retry: it waits the interval before each run of the
  condition, stops at the first run that returns true or an error, and fails with the
  timeout error once the ceiling is exhausted, the run at the ceiling included.
\<close>

datatype loopExit = Returned "error option" | Completed

fun pollLoop :: "nat \<Rightarrow> nat \<Rightarrow> (world \<Rightarrow> (error + bool) \<times> world) \<Rightarrow> world \<Rightarrow> error option \<times> world" where
  "pollLoop 0 interval condition w = (Some ErrWaitTimeout, w)"
| "pollLoop (Suc n) interval condition w =
     (case condition (sleep interval w) of
        (Inl err, w') \<Rightarrow> (Some err, w')
      | (Inr True, w') \<Rightarrow> (None, w')
      | (Inr False, w') \<Rightarrow> pollLoop n interval condition w')"

definition poll :: "nat \<Rightarrow> nat \<Rightarrow> (world \<Rightarrow> (error + bool) \<times> world) \<Rightarrow> world \<Rightarrow> error option \<times> world" where
  "poll interval timeout condition w = pollLoop (timeout div interval) interval condition w"

section \<open>renewCertificate\<close>

text \<open>
  Lines 165 to 184: the loop over the listed requests. It leaves the function with
  \<^verbatim>\<open>return nil\<close> at a controlled request with no certificate, with the error at a failed
  deletion, or it completes.
\<close>

fun cancelStale :: "certificate \<Rightarrow> certificateRequest list \<Rightarrow> world \<Rightarrow> loopExit \<times> world" where
  "cancelStale cert [] w = (Completed, w)"
| "cancelStale cert (req # rest) w =
     (if \<not> isControlledBy req cert then cancelStale cert rest w
      else if length (req_certificate req) = 0 then (Returned None, w)
      else (case deleteCertificateRequest req w of
              (Some err, w') \<Rightarrow> (Returned (Some err), w')
            | (None, w') \<Rightarrow> cancelStale cert rest w'))"

text \<open>Lines 196 to 199: the annotation write on the copy of the secret.\<close>

definition setIssuerNameAnnotation :: "secret \<Rightarrow> error + secret" where
  "setIssuerNameAnnotation secret =
     (let secret1 = (if sec_annotations secret = None
                     then secret\<lparr>sec_annotations := Some []\<rparr> else secret)
      in case mapAssign IssuerNameAnnotationKey ''force-renewal-triggered'' (sec_annotations secret1) of
           Inl err \<Rightarrow> Inl err
         | Inr anns \<Rightarrow> Inr (secret1\<lparr>sec_annotations := anns\<rparr>))"

text \<open>Lines 186 to 203: the secret is read again, annotated and written back.\<close>

definition annotate :: "certificate \<Rightarrow> world \<Rightarrow> error option \<times> world" where
  "annotate cert w =
     (case getSecret (crt_namespace cert) (crt_secretName cert) w of
        (Inl err, w1) \<Rightarrow> (Some err, w1)
      | (Inr secret, w1) \<Rightarrow>
          (case setIssuerNameAnnotation secret of
             Inl err \<Rightarrow> (Some err, w1)
           | Inr secret' \<Rightarrow> updateSecret secret' w1))"

text \<open>Lines 207 to 220: the condition that is polled.\<close>

definition requestExists :: "certificate \<Rightarrow> world \<Rightarrow> (error + bool) \<times> world" where
  "requestExists cert w =
     (case listCertificateRequests (crt_namespace cert) w of
        (Inl err, w') \<Rightarrow> (Inl err, w')
      | (Inr items, w') \<Rightarrow> (Inr (list_ex (\<lambda>req. isControlledBy req cert) items), w'))"

definition awaitRequest :: "certificate \<Rightarrow> world \<Rightarrow> error option \<times> world" where
  "awaitRequest cert w = poll second minute (requestExists cert) w"

definition renewCertificate :: "certificate \<Rightarrow> world \<Rightarrow> error option \<times> world" where
  "renewCertificate cert w =
     (case listCertificateRequests (crt_namespace cert) w of
        (Inl err, w1) \<Rightarrow> (Some err, w1)
      | (Inr items, w1) \<Rightarrow>
          (case cancelStale cert items w1 of
             (Returned r, w2) \<Rightarrow> (r, w2)
           | (Completed, w2) \<Rightarrow>
               (case annotate cert w2 of
                  (Some err, w3) \<Rightarrow> (Some err, w3)
                | (None, w3) \<Rightarrow> awaitRequest cert w3)))"

section \<open>run\<close>

text \<open>Lines 150 to 157: the renewals, one certificate after the other.\<close>

fun renewAll :: "certificate list \<Rightarrow> world \<Rightarrow> error option \<times> world" where
  "renewAll [] w = (None, w)"
| "renewAll (cert # rest) w =
     (case renewCertificate cert w of
        (Some err, w') \<Rightarrow> (Some err, w')
      | (None, w') \<Rightarrow> renewAll rest w')"

text \<open>
  \<^verbatim>\<open>run\<close> from line 73 on; building the API client is left out. The flags
  \<^verbatim>\<open>issuerName\<close> and \<^verbatim>\<open>renew\<close> are parameters. Go ranges over a map in an order it does
  not specify: \<open>rangeOrder\<close> is the order in which the run visits the entries of
  \<^verbatim>\<open>serialsToCertificates\<close>.
\<close>

definition run ::
  "string \<Rightarrow> bool \<Rightarrow> decoder \<Rightarrow>
   ((string \<times> certificate) list \<Rightarrow> (string \<times> certificate) list) \<Rightarrow> world \<Rightarrow> error option \<times> world" where
  "run issuerName renew decode rangeOrder w =
     (case listCertificates w of
        (Inl err, w1) \<Rightarrow> (Some (Wrapped ''error listing Certificate resources'' err), w1)
      | (Inr certs, w1) \<Rightarrow>
          (case listSecrets (printf (PrintFound (length certs)) w1) of
             (Inl err, w2) \<Rightarrow> (Some (Wrapped ''error listing Secret resources'' err), w2)
           | (Inr secretItems, w2) \<Rightarrow>
               (case analyse issuerName decode secretItems certs of
                  (skipped, serialsToCertificates) \<Rightarrow>
                    (let w3 = printf (PrintResults skipped (length serialsToCertificates)) w2
                     in if length serialsToCertificates = 0 then (None, w3)
                        else if \<not> renew then (None, w3)
                        else renewAll (map snd (rangeOrder serialsToCertificates))
                               (sleep (2 * second) w3)))))"

section \<open>Notions used by the statements\<close>

text \<open>
  A certificate resolves when lines 91 to 108 reach the decoded certificate; its serial
  is then the key under which line 123 stores it.
\<close>

definition resolves :: "decoder \<Rightarrow> (string \<rightharpoonup> secret) \<Rightarrow> certificate \<Rightarrow> bool" where
  "resolves decode secretsMap crt =
     (case correlate decode secretsMap crt of Inl reason \<Rightarrow> False | Inr p \<Rightarrow> True)"

definition serialOf :: "decoder \<Rightarrow> (string \<rightharpoonup> secret) \<Rightarrow> certificate \<Rightarrow> string" where
  "serialOf decode secretsMap crt =
     (case correlate decode secretsMap crt of
        Inl reason \<Rightarrow> []
      | Inr (secret, cert) \<Rightarrow> bigIntString (serialNumber cert))"

text \<open>
  A request is in progress for a certificate when the certificate controls it and it
  carries no certificate yet (lines 168 and 173). The controlled requests that the loop of
  line 165 meets before the first request in progress are the ones it deletes.
\<close>

definition inProgress :: "certificate \<Rightarrow> certificateRequest \<Rightarrow> bool" where
  "inProgress cert req = (isControlledBy req cert \<and> length (req_certificate req) = 0)"

definition staleBefore :: "certificate \<Rightarrow> certificateRequest list \<Rightarrow> certificateRequest list" where
  "staleBefore cert items =
     filter (\<lambda>req. isControlledBy req cert) (takeWhile (\<lambda>req. \<not> inProgress cert req) items)"

definition deletion :: "certificateRequest \<Rightarrow> action" where
  "deletion req = DeleteCertificateRequest (req_namespace req) (req_name req)"

text \<open>
  The deletions of a list of requests, one after the other: the first deletion that fails
  ends them with its error, and when none fails the result is success.
\<close>

fun deleteEach :: "certificateRequest list \<Rightarrow> world \<Rightarrow> error option \<times> world" where
  "deleteEach [] w = (None, w)"
| "deleteEach (req # rest) w =
     (case deleteCertificateRequest req w of
        (Some err, w') \<Rightarrow> (Some err, w')
      | (None, w') \<Rightarrow> deleteEach rest w')"

text \<open>The errors that come from the backing store.\<close>

definition apiFailure :: "error \<Rightarrow> bool" where
  "apiFailure e = ((\<exists>msg. e = ApiError msg) \<or> e = NotFound)"

text \<open>
  Whether a request controlled by the certificate is in the listing of its namespace.
\<close>

definition ownedVisible :: "certificate \<Rightarrow> world \<Rightarrow> bool" where
  "ownedVisible cert w =
     list_ex (\<lambda>req. isControlledBy req cert)
       (filter (\<lambda>r. req_namespace r = crt_namespace cert) (requests w))"

text \<open>The API calls that change the store.\<close>

fun mutating :: "action \<Rightarrow> bool" where
  "mutating (DeleteCertificateRequest ns n) = True"
| "mutating (UpdateSecret s) = True"
| "mutating a = False"

section \<open>Example inputs\<close>

text \<open>
  A stand-in for the decoder, which accepts three payloads, and a small cluster.
\<close>

definition exampleDecoder :: decoder where
  "exampleDecoder b =
     (if b = ''PEM-7'' then Inr \<lparr>serialNumber = 7\<rparr>
      else if b = ''PEM-8'' then Inr \<lparr>serialNumber = 8\<rparr>
      else if b = ''PEM-9'' then Inr \<lparr>serialNumber = 9\<rparr>
      else Inl (DecodeError ''error decoding cert PEM block''))"

definition crtWeb :: certificate where
  "crtWeb = \<lparr>crt_namespace = ''prod'', crt_name = ''web'', crt_uid = ''uid-web'',
     crt_secretName = ''web-tls''\<rparr>"

definition crtApi :: certificate where
  "crtApi = \<lparr>crt_namespace = ''prod'', crt_name = ''api'', crt_uid = ''uid-api'',
     crt_secretName = ''web-tls''\<rparr>"

definition crtShop :: certificate where
  "crtShop = \<lparr>crt_namespace = ''prod'', crt_name = ''shop'', crt_uid = ''uid-shop'',
     crt_secretName = ''shop-tls''\<rparr>"

definition crtGone :: certificate where
  "crtGone = \<lparr>crt_namespace = ''prod'', crt_name = ''gone'', crt_uid = ''uid-gone'',
     crt_secretName = ''gone-tls''\<rparr>"

definition secretPlain :: secret where
  "secretPlain = \<lparr>sec_namespace = ''prod'', sec_name = ''web-tls'', sec_annotations = None,
     sec_data = Some [(''tls.crt'', Some ''PEM-7'')]\<rparr>"

definition secretShop :: secret where
  "secretShop = \<lparr>sec_namespace = ''prod'', sec_name = ''shop-tls'',
     sec_annotations = Some [(''cert-manager.io/issuer-name'', ''letsencrypt-prod'')],
     sec_data = Some [(''tls.crt'', Some ''PEM-8'')]\<rparr>"

definition secretNoData :: secret where
  "secretNoData = \<lparr>sec_namespace = ''prod'', sec_name = ''web-tls'', sec_annotations = None,
     sec_data = None\<rparr>"

definition reqOld :: certificateRequest where
  "reqOld = \<lparr>req_namespace = ''prod'', req_name = ''web-1'', req_controller = Some ''uid-web'',
     req_certificate = ''PEM-7''\<rparr>"

definition reqNew :: certificateRequest where
  "reqNew = \<lparr>req_namespace = ''prod'', req_name = ''web-2'', req_controller = Some ''uid-web'',
     req_certificate = []\<rparr>"

definition worldStale :: world where
  "worldStale = \<lparr>certificates = [crtWeb], secrets = [secretPlain], requests = [reqOld, reqNew],
     clock = 0, pending = [], faults = [], trace = []\<rparr>"

definition worldPending :: world where
  "worldPending = \<lparr>certificates = [crtWeb], secrets = [secretPlain], requests = [reqNew],
     clock = 0, pending = [], faults = [], trace = []\<rparr>"

definition worldConflict :: world where
  "worldConflict = \<lparr>certificates = [crtWeb], secrets = [secretPlain], requests = [],
     clock = 0, pending = [], faults = [None, Some ''conflict''], trace = []\<rparr>"

definition worldFetchFails :: world where
  "worldFetchFails = \<lparr>certificates = [crtWeb], secrets = [secretPlain], requests = [reqNew],
     clock = 0, pending = [], faults = [Some ''unavailable''], trace = []\<rparr>"

text \<open>
  Two clusters in which the external controller creates the new request at second 60 and
  at second 61.
\<close>

definition worldArrives :: world where
  "worldArrives = \<lparr>certificates = [crtWeb], secrets = [secretPlain], requests = [],
     clock = 0, pending = [(60, CreateRequest reqNew)], faults = [], trace = []\<rparr>"

definition worldLate :: world where
  "worldLate = \<lparr>certificates = [crtWeb], secrets = [secretPlain], requests = [],
     clock = 0, pending = [(61, CreateRequest reqNew)], faults = [], trace = []\<rparr>"

text \<open>
  A cluster in which the deletion of a request is refused, and one with three certificates
  in which the fourth API call of the run is refused.
\<close>

definition worldDenied :: world where
  "worldDenied = \<lparr>certificates = [crtWeb], secrets = [secretPlain], requests = [reqOld, reqNew],
     clock = 0, pending = [], faults = [None, Some ''denied''], trace = []\<rparr>"

definition crtMail :: certificate where
  "crtMail = \<lparr>crt_namespace = ''prod'', crt_name = ''mail'', crt_uid = ''uid-mail'',
     crt_secretName = ''mail-tls''\<rparr>"

definition secretMail :: secret where
  "secretMail = \<lparr>sec_namespace = ''prod'', sec_name = ''mail-tls'', sec_annotations = None,
     sec_data = Some [(''tls.crt'', Some ''PEM-9'')]\<rparr>"

definition worldRenewFails :: world where
  "worldRenewFails = \<lparr>certificates = [crtWeb, crtShop, crtMail],
     secrets = [secretPlain, secretShop, secretMail], requests = [reqNew],
     clock = 0, pending = [], faults = [None, None, None, Some ''denied''], trace = []\<rparr>"

section \<open>The analysis\<close>

lemma bigIntString_7: "bigIntString 7 = ''7''"
  by (simp add: bigIntString_def natString.simps digitChar_def)

lemma bigIntString_8: "bigIntString 8 = ''8''"
  by (simp add: bigIntString_def natString.simps digitChar_def)

lemma secretsMap_plain:
  "makeSecretsMap [secretPlain] = [''prod/web-tls'' \<mapsto> secretPlain]"
  by (simp add: makeSecretsMap_def secretPlain_def)

lemma secretsMap_shop:
  "makeSecretsMap [secretShop] = [''prod/shop-tls'' \<mapsto> secretShop]"
  by (simp add: makeSecretsMap_def secretShop_def)

lemma secretsMap_noData:
  "makeSecretsMap [secretNoData] = [''prod/web-tls'' \<mapsto> secretNoData]"
  by (simp add: makeSecretsMap_def secretNoData_def)

lemma secretsMap_both:
  "makeSecretsMap [secretPlain, secretShop] =
     [''prod/web-tls'' \<mapsto> secretPlain, ''prod/shop-tls'' \<mapsto> secretShop]"
  by (simp add: makeSecretsMap_def secretPlain_def secretShop_def)

lemma correlate_plain_web:
  "correlate exampleDecoder (makeSecretsMap [secretPlain]) crtWeb =
     Inr (secretPlain, \<lparr>serialNumber = 7\<rparr>)"
  by (simp add: secretsMap_plain correlate_def crtWeb_def)
    (simp add: secretPlain_def mapIndex_def TLSCertKey_def exampleDecoder_def)

lemma correlate_plain_api:
  "correlate exampleDecoder (makeSecretsMap [secretPlain]) crtApi =
     Inr (secretPlain, \<lparr>serialNumber = 7\<rparr>)"
  by (simp add: secretsMap_plain correlate_def crtApi_def)
    (simp add: secretPlain_def mapIndex_def TLSCertKey_def exampleDecoder_def)

lemma correlate_shop:
  "correlate exampleDecoder (makeSecretsMap [secretShop]) crtShop =
     Inr (secretShop, \<lparr>serialNumber = 8\<rparr>)"
  by (simp add: secretsMap_shop correlate_def crtShop_def)
    (simp add: secretShop_def mapIndex_def TLSCertKey_def exampleDecoder_def)

lemma correlate_both_web:
  "correlate exampleDecoder (makeSecretsMap [secretPlain, secretShop]) crtWeb =
     Inr (secretPlain, \<lparr>serialNumber = 7\<rparr>)"
  by (simp add: secretsMap_both correlate_def crtWeb_def)
    (simp add: secretPlain_def mapIndex_def TLSCertKey_def exampleDecoder_def)

lemma correlate_both_shop:
  "correlate exampleDecoder (makeSecretsMap [secretPlain, secretShop]) crtShop =
     Inr (secretShop, \<lparr>serialNumber = 8\<rparr>)"
  by (simp add: secretsMap_both correlate_def crtShop_def)
    (simp add: secretShop_def mapIndex_def TLSCertKey_def exampleDecoder_def)

lemma correlate_both_gone:
  "correlate exampleDecoder (makeSecretsMap [secretPlain, secretShop]) crtGone = Inl SecretNotFound"
  by (simp add: secretsMap_both correlate_def crtGone_def)

lemma correlate_noData_web:
  "correlate exampleDecoder (makeSecretsMap [secretNoData]) crtWeb = Inl NoData"
  by (simp add: secretsMap_noData correlate_def crtWeb_def) (simp add: secretNoData_def)

lemma correlate_noData_gone:
  "correlate exampleDecoder (makeSecretsMap [secretNoData]) crtGone = Inl SecretNotFound"
  by (simp add: secretsMap_noData correlate_def crtGone_def)

lemma annotationItems_plain: "annotationItems secretPlain = []"
  by (simp add: annotationItems_def secretPlain_def)

lemma annotationItems_shop:
  "annotationItems secretShop = [(''cert-manager.io/issuer-name'', ''letsencrypt-prod'')]"
  by (simp add: annotationItems_def secretShop_def)

lemmas example_simps =
  analyse_def checkCertificate_def resolves_def serialOf_def bigIntString_7 bigIntString_8
  correlate_plain_web correlate_plain_api correlate_shop correlate_both_web correlate_both_shop
  correlate_both_gone correlate_noData_web correlate_noData_gone
  annotationItems_plain annotationItems_shop

subsection \<open>The issuer filter\<close>

text \<open>
  C1. With a filter, a certificate should be affected only when the issuer annotation of
  its secret equals the filter. The loop of lines 112 to 120 only looks at annotations
  that are there: the secret \<open>secretPlain\<close> decodes and has no annotation at all, and with
  the filter \<^verbatim>\<open>letsencrypt-prod\<close> its certificate is affected and nothing is counted as
  skipped.
\<close>

theorem filter_admits_secret_without_annotation:
  "analyse ''letsencrypt-prod'' exampleDecoder [secretPlain] [crtWeb] = (0, [(''7'', crtWeb)])"
  by (simp add: example_simps)

subsection \<open>No filter\<close>

lemma checkCertificate_no_filter:
  "checkCertificate [] d sm crt (k, m) =
     (if resolves d sm crt then (k, AList.update (serialOf d sm crt) crt m) else (k + 1, m))"
  by (simp add: checkCertificate_def resolves_def serialOf_def split: sum.splits prod.splits)

lemma fold_no_filter:
  "fold (checkCertificate [] d sm) certs (0, []) = (k, m) \<Longrightarrow>
     k = length (filter (\<lambda>c. \<not> resolves d sm c) certs) \<and>
     distinct (map fst m) \<and>
     fst ` set m = serialOf d sm ` {c \<in> set certs. resolves d sm c} \<and>
     (\<forall>sn. map_of m sn =
        (if filter (\<lambda>c. resolves d sm c \<and> serialOf d sm c = sn) certs = [] then None
         else Some (last (filter (\<lambda>c. resolves d sm c \<and> serialOf d sm c = sn) certs))))"
proof (induction certs arbitrary: k m rule: rev_induct)
  case Nil
  then show ?case by simp
next
  case (snoc x xs)
  obtain k0 m0 where st: "fold (checkCertificate [] d sm) xs (0, []) = (k0, m0)"
    by (cases "fold (checkCertificate [] d sm) xs (0, [])")
  note ih = snoc.IH [OF st]
  have step: "(k, m) = checkCertificate [] d sm x (k0, m0)"
    using snoc.prems st by simp
  show ?case
  proof (cases "resolves d sm x")
    case True
    then have km: "k = k0" "m = AList.update (serialOf d sm x) x m0"
      using step by (simp_all add: checkCertificate_no_filter)
    have "fst ` set m = insert (serialOf d sm x) (fst ` set m0)"
      by (simp add: km dom_update)
    moreover have "{c \<in> set (xs @ [x]). resolves d sm c} = insert x {c \<in> set xs. resolves d sm c}"
      using True by auto
    ultimately have dom: "fst ` set m = serialOf d sm ` {c \<in> set (xs @ [x]). resolves d sm c}"
      using ih by simp
    have mp: "map_of m sn =
        (if filter (\<lambda>c. resolves d sm c \<and> serialOf d sm c = sn) (xs @ [x]) = [] then None
         else Some (last (filter (\<lambda>c. resolves d sm c \<and> serialOf d sm c = sn) (xs @ [x]))))" for sn
    proof (cases "serialOf d sm x = sn")
      case True
      then show ?thesis
        using \<open>resolves d sm x\<close> by (simp add: km update_conv')
    next
      case False
      then show ?thesis
        using ih by (simp add: km update_conv')
    qed
    show ?thesis
      using ih True dom mp by (simp add: km distinct_update)
  next
    case False
    then have km: "k = k0 + 1" "m = m0"
      using step by (simp_all add: checkCertificate_no_filter)
    have "{c \<in> set (xs @ [x]). resolves d sm c} = {c \<in> set xs. resolves d sm c}"
      using False by auto
    then show ?thesis
      using ih False by (simp add: km)
  qed
qed

text \<open>
  C3, as the claim states it, fails: \<open>crtWeb\<close> and \<open>crtApi\<close> name the same secret, both
  resolve, and the map keeps one entry, the later certificate, under the one serial.
\<close>

theorem shared_serial_counterexample:
  "length (filter (resolves exampleDecoder (makeSecretsMap [secretPlain])) [crtWeb, crtApi]) = 2 \<and>
   analyse [] exampleDecoder [secretPlain] [crtWeb, crtApi] = (0, [(''7'', crtApi)]) \<and>
   length (snd (analyse [] exampleDecoder [secretPlain] [crtWeb, crtApi])) = 1"
  by (simp add: example_simps)

text \<open>
  C3, amended. With no filter, every certificate that does not resolve is counted as
  skipped and every one that resolves is stored under its serial, where a later
  certificate with the same serial replaces it: the map holds, for each serial, the last
  resolving certificate with that serial. Its size is the number of distinct serials
  among the resolving certificates, which is their number when the serials are pairwise
  distinct.
\<close>

theorem analyse_without_filter:
  assumes "analyse [] decode secretItems certs = (skipped, affected)"
    and "sm = makeSecretsMap secretItems"
    and "successes = filter (resolves decode sm) certs"
  shows "skipped + length successes = length certs \<and>
     length affected = card (serialOf decode sm ` set successes) \<and>
     (distinct (map (serialOf decode sm) successes) \<longrightarrow> length affected = length successes) \<and>
     (\<forall>sn. map_of affected sn =
        (if filter (\<lambda>c. serialOf decode sm c = sn) successes = [] then None
         else Some (last (filter (\<lambda>c. serialOf decode sm c = sn) successes))))"
proof -
  have f: "fold (checkCertificate [] decode sm) certs (0, []) = (skipped, affected)"
    using assms(1,2) by (simp add: analyse_def)
  note r = fold_no_filter [OF f]
  have sk: "skipped + length successes = length certs"
    using r assms(3) sum_length_filter_compl [of "resolves decode sm" certs] by simp
  have "length affected = card (fst ` set affected)"
    using r by (metis distinct_card length_map set_map)
  moreover have "{c \<in> set certs. resolves decode sm c} = set successes"
    using assms(3) by auto
  ultimately have len: "length affected = card (serialOf decode sm ` set successes)"
    using r by simp
  have d: "length affected = length successes" if "distinct (map (serialOf decode sm) successes)"
    using that len by (metis distinct_card length_map set_map)
  have fl: "filter (\<lambda>c. serialOf decode sm c = sn) successes =
      filter (\<lambda>c. resolves decode sm c \<and> serialOf decode sm c = sn) certs" for sn
    using assms(3) by (simp add: conj_commute)
  show ?thesis
    using sk len d r by (simp add: fl)
qed

theorem analyse_without_filter_witness:
  "analyse [] exampleDecoder [secretPlain, secretShop] [crtWeb, crtGone, crtShop] =
     (1, [(''7'', crtWeb), (''8'', crtShop)]) \<and>
   [crtWeb, crtShop] =
     filter (resolves exampleDecoder (makeSecretsMap [secretPlain, secretShop])) [crtWeb, crtGone, crtShop] \<and>
   1 + length [crtWeb, crtShop] = length [crtWeb, crtGone, crtShop] \<and>
   length [(''7'', crtWeb), (''8'', crtShop)] = length [crtWeb, crtShop]"
proof -
  have a: "analyse [] exampleDecoder [secretPlain, secretShop] [crtWeb, crtGone, crtShop] =
      (1, [(''7'', crtWeb), (''8'', crtShop)])"
    by (simp add: example_simps)
  have s: "[crtWeb, crtShop] =
      filter (resolves exampleDecoder (makeSecretsMap [secretPlain, secretShop])) [crtWeb, crtGone, crtShop]"
    by (simp add: example_simps)
  have d: "distinct (map (serialOf exampleDecoder (makeSecretsMap [secretPlain, secretShop])) [crtWeb, crtShop])"
    by (simp add: example_simps)
  note r = analyse_without_filter [OF a refl s]
  note r1 = r [THEN conjunct1]
  note r2 = r [THEN conjunct2, THEN conjunct2, THEN conjunct1, THEN mp, OF d]
  show ?thesis
    by (rule conjI [OF a conjI [OF s conjI [OF r1 r2]]])
qed

subsection \<open>Skipped certificates\<close>

lemma correlate_Inl_iff:
  "(\<exists>reason. correlate decode sm crt = Inl reason) \<longleftrightarrow>
     (sm (crt_namespace crt @ ''/'' @ crt_secretName crt) = None \<or>
      (\<exists>secret. sm (crt_namespace crt @ ''/'' @ crt_secretName crt) = Some secret \<and>
         (mapIndex (sec_data secret) TLSCertKey = None \<or>
          (\<exists>pem e. mapIndex (sec_data secret) TLSCertKey = Some pem \<and> decode pem = Inl e))))"
  by (auto simp: correlate_def mapIndex_def Let_def split: option.splits sum.splits if_splits)

lemma checkCertificate_skip:
  "correlate decode sm crt = Inl reason \<Longrightarrow>
     checkCertificate issuerName decode sm crt (skipped, m) = (skipped + 1, m)"
  by (simp add: checkCertificate_def)

text \<open>
  C7. Lines 91 to 108 skip a certificate exactly when the string of its namespace and
  secret name has no secret in the map, or the secret has no \<^verbatim>\<open>tls.crt\<close> entry (no data
  map, no such key, or a \<^verbatim>\<open>nil\<close> value), or the entry does not decode; an entry that is
  present and empty is skipped as one that does not decode, by a decoder that rejects the
  empty input. A skipped certificate adds one to the counter and leaves the map as it is,
  whatever the filter, and the loop goes on with the certificates after it. With no
  filter nothing else is skipped.
\<close>

theorem correlate_skips:
  "((\<exists>reason. correlate decode sm crt = Inl reason) \<longleftrightarrow>
     (sm (crt_namespace crt @ ''/'' @ crt_secretName crt) = None \<or>
      (\<exists>secret. sm (crt_namespace crt @ ''/'' @ crt_secretName crt) = Some secret \<and>
         (mapIndex (sec_data secret) TLSCertKey = None \<or>
          (\<exists>pem e. mapIndex (sec_data secret) TLSCertKey = Some pem \<and> decode pem = Inl e))))) \<and>
   ((\<exists>e. decode [] = Inl e) \<and>
      sm (crt_namespace crt @ ''/'' @ crt_secretName crt) = Some secret \<and>
      mapIndex (sec_data secret) TLSCertKey = Some [] \<longrightarrow>
      (\<exists>reason. correlate decode sm crt = Inl reason)) \<and>
   (correlate decode sm crt = Inl reason \<longrightarrow>
      checkCertificate issuerName decode sm crt (skipped, m) = (skipped + 1, m) \<and>
      fold (checkCertificate issuerName decode sm) (before @ crt # rest) st =
        fold (checkCertificate issuerName decode sm) rest
          (case fold (checkCertificate issuerName decode sm) before st of
             (k, m') \<Rightarrow> (k + 1, m'))) \<and>
   ((\<exists>p. correlate decode sm crt = Inr p) \<longrightarrow>
      checkCertificate [] decode sm crt (skipped, m) \<noteq> (skipped + 1, m))"
proof -
  have a: "correlate decode sm crt = Inl reason \<Longrightarrow>
      fold (checkCertificate issuerName decode sm) (before @ crt # rest) st =
        fold (checkCertificate issuerName decode sm) rest
          (case fold (checkCertificate issuerName decode sm) before st of
             (k, m') \<Rightarrow> (k + 1, m'))"
    by (cases "fold (checkCertificate issuerName decode sm) before st")
      (simp add: checkCertificate_skip)
  have b: "(\<exists>p. correlate decode sm crt = Inr p) \<Longrightarrow>
      checkCertificate [] decode sm crt (skipped, m) \<noteq> (skipped + 1, m)"
    by (auto simp: checkCertificate_def)
  have c: "(\<exists>e. decode [] = Inl e) \<and>
      sm (crt_namespace crt @ ''/'' @ crt_secretName crt) = Some secret \<and>
      mapIndex (sec_data secret) TLSCertKey = Some [] \<Longrightarrow>
      (\<exists>reason. correlate decode sm crt = Inl reason)"
    by (auto simp: correlate_def)
  show ?thesis
    using a b c correlate_Inl_iff [of decode sm crt] checkCertificate_skip [of decode sm crt reason]
    by blast
qed

theorem correlate_skips_witness:
  "correlate exampleDecoder (makeSecretsMap [secretNoData]) crtWeb = Inl NoData \<and>
   checkCertificate ''letsencrypt-prod'' exampleDecoder (makeSecretsMap [secretNoData]) crtWeb (0, []) =
     (0 + 1, []) \<and>
   fold (checkCertificate ''letsencrypt-prod'' exampleDecoder (makeSecretsMap [secretNoData]))
     ([] @ crtWeb # [crtGone]) (0, []) =
   fold (checkCertificate ''letsencrypt-prod'' exampleDecoder (makeSecretsMap [secretNoData])) [crtGone]
     (case fold (checkCertificate ''letsencrypt-prod'' exampleDecoder (makeSecretsMap [secretNoData])) [] (0, []) of
        (k, m') \<Rightarrow> (k + 1, m'))"
proof -
  have h: "correlate exampleDecoder (makeSecretsMap [secretNoData]) crtWeb = Inl NoData"
    by (simp add: example_simps)
  note r = correlate_skips [where decode = exampleDecoder and sm = "makeSecretsMap [secretNoData]"
      and crt = crtWeb and reason = NoData and issuerName = "''letsencrypt-prod''"
      and skipped = 0 and m = "[]" and before = "[]" and rest = "[crtGone]" and st = "(0, [])"]
  note r3 = r [THEN conjunct2, THEN conjunct2, THEN conjunct1, THEN mp, OF h]
  show ?thesis
    by (rule conjI [OF h r3])
qed

subsection \<open>The entries of the map\<close>

lemma makeSecretsMap_fold:
  "fold (\<lambda>s m. m(sec_namespace s @ ''/'' @ sec_name s \<mapsto> s)) items m0 k = Some s \<Longrightarrow>
     (s \<in> set items \<and> sec_namespace s @ ''/'' @ sec_name s = k) \<or> m0 k = Some s"
  by (induction items arbitrary: m0) (fastforce split: if_splits)+

lemma makeSecretsMap_Some:
  "makeSecretsMap items k = Some s \<Longrightarrow> s \<in> set items \<and> sec_namespace s @ ''/'' @ sec_name s = k"
  using makeSecretsMap_fold [of items Map.empty k s] by (simp add: makeSecretsMap_def)

lemma slash_key_inj:
  assumes "CHR ''/'' \<notin> set a" "CHR ''/'' \<notin> set b" "a @ ''/'' @ x = b @ ''/'' @ y"
  shows "a = b \<and> x = y"
proof -
  have "takeWhile (\<lambda>c. c \<noteq> CHR ''/'') (a @ ''/'' @ x) = a"
    using assms(1) by (subst takeWhile_append2) auto
  moreover have "takeWhile (\<lambda>c. c \<noteq> CHR ''/'') (b @ ''/'' @ y) = b"
    using assms(2) by (subst takeWhile_append2) auto
  ultimately have "a = b" using assms(3) by simp
  then show ?thesis using assms(3) by simp
qed

lemma set_update_subset: "set (AList.update k v al) \<subseteq> insert (k, v) (set al)"
  by (induction al) auto

lemma checkCertificate_entries:
  assumes "(sn, c) \<in> set (snd (checkCertificate f d sm crt (k, m)))"
  shows "(sn, c) \<in> set m \<or>
     (c = crt \<and> (\<exists>secret cert. correlate d sm crt = Inr (secret, cert) \<and>
        sn = bigIntString (serialNumber cert)))"
  using assms set_update_subset [of _ crt m]
  by (fastforce simp: checkCertificate_def split: sum.splits prod.splits if_splits)

lemma fold_entries:
  "(sn, c) \<in> set (snd (fold (checkCertificate f d sm) certs st)) \<Longrightarrow>
     (sn, c) \<in> set (snd st) \<or>
     (c \<in> set certs \<and> (\<exists>secret cert. correlate d sm c = Inr (secret, cert) \<and>
        sn = bigIntString (serialNumber cert)))"
proof (induction certs arbitrary: st)
  case Nil
  then show ?case by simp
next
  case (Cons x xs)
  obtain k m where st: "st = (k, m)" by (cases st)
  from Cons.prems have "(sn, c) \<in> set (snd (fold (checkCertificate f d sm) xs (checkCertificate f d sm x st)))"
    by simp
  from Cons.IH [OF this] show ?case
    using checkCertificate_entries [of sn c f d sm x k m] st by auto
qed

lemma correlate_Inr:
  "correlate d sm crt = Inr (secret, cert) \<Longrightarrow>
     sm (crt_namespace crt @ ''/'' @ crt_secretName crt) = Some secret \<and>
     (\<exists>pem. mapIndex (sec_data secret) TLSCertKey = Some pem \<and> d pem = Inr cert)"
  by (auto simp: correlate_def Let_def split: option.splits sum.splits if_splits)

text \<open>
  C8. Every entry of the map that one analysis produces, with or without a filter, is a
  certificate of the list whose secret is among the fetched secrets under the
  certificate's namespace and secret name, and the \<^verbatim>\<open>tls.crt\<close> bytes of that secret
  decode to a certificate whose serial, as a decimal string, is the key of the entry.
  The map of secrets is keyed by the string \<^verbatim>\<open>Namespace + "/" + Name\<close>, which stands
  for the pair when no namespace contains a slash, as in a cluster.
\<close>

theorem affected_entries_backed:
  assumes "\<forall>s\<in>set secretItems. CHR ''/'' \<notin> set (sec_namespace s)"
    and "\<forall>c\<in>set certs. CHR ''/'' \<notin> set (crt_namespace c)"
    and "(sn, crt) \<in> set (snd (analyse issuerName decode secretItems certs))"
  shows "crt \<in> set certs \<and>
     (\<exists>secret\<in>set secretItems.
        sec_namespace secret = crt_namespace crt \<and> sec_name secret = crt_secretName crt \<and>
        makeSecretsMap secretItems (crt_namespace crt @ ''/'' @ crt_secretName crt) = Some secret \<and>
        (\<exists>pem cert. mapIndex (sec_data secret) TLSCertKey = Some pem \<and> decode pem = Inr cert \<and>
           bigIntString (serialNumber cert) = sn))"
proof -
  from assms(3) fold_entries [of sn crt issuerName decode "makeSecretsMap secretItems" certs "(0, [])"]
  obtain secret cert where in_certs: "crt \<in> set certs"
    and corr: "correlate decode (makeSecretsMap secretItems) crt = Inr (secret, cert)"
    and sn: "sn = bigIntString (serialNumber cert)"
    by (auto simp: analyse_def)
  from correlate_Inr [OF corr] obtain pem where
    look: "makeSecretsMap secretItems (crt_namespace crt @ ''/'' @ crt_secretName crt) = Some secret"
    and pem: "mapIndex (sec_data secret) TLSCertKey = Some pem" "decode pem = Inr cert"
    by blast
  from makeSecretsMap_Some [OF look] have mem: "secret \<in> set secretItems"
    and key: "sec_namespace secret @ ''/'' @ sec_name secret = crt_namespace crt @ ''/'' @ crt_secretName crt"
    by simp_all
  have "sec_namespace secret = crt_namespace crt \<and> sec_name secret = crt_secretName crt"
    using slash_key_inj [OF _ _ key] assms(1,2) mem in_certs by blast
  then show ?thesis
    using in_certs mem look pem sn by blast
qed

theorem affected_entries_backed_witness:
  "CHR ''/'' \<notin> set (sec_namespace secretShop) \<and>
   CHR ''/'' \<notin> set (crt_namespace crtShop) \<and>
   (''8'', crtShop) \<in> set (snd (analyse ''letsencrypt-prod'' exampleDecoder [secretShop] [crtShop])) \<and>
   crtShop \<in> set [crtShop] \<and>
   (\<exists>secret\<in>set [secretShop].
      sec_namespace secret = crt_namespace crtShop \<and> sec_name secret = crt_secretName crtShop \<and>
      makeSecretsMap [secretShop] (crt_namespace crtShop @ ''/'' @ crt_secretName crtShop) = Some secret \<and>
      (\<exists>pem cert. mapIndex (sec_data secret) TLSCertKey = Some pem \<and> exampleDecoder pem = Inr cert \<and>
         bigIntString (serialNumber cert) = ''8''))"
proof -
  have a: "CHR ''/'' \<notin> set (sec_namespace secretShop)"
    by (simp add: secretShop_def)
  have b: "CHR ''/'' \<notin> set (crt_namespace crtShop)"
    by (simp add: crtShop_def)
  have c: "(''8'', crtShop) \<in> set (snd (analyse ''letsencrypt-prod'' exampleDecoder [secretShop] [crtShop]))"
    by (simp add: example_simps)
  have a': "\<forall>s\<in>set [secretShop]. CHR ''/'' \<notin> set (sec_namespace s)"
    using a by simp
  have b': "\<forall>c\<in>set [crtShop]. CHR ''/'' \<notin> set (crt_namespace c)"
    using b by simp
  note r = affected_entries_backed [OF a' b' c]
  show ?thesis
    by (rule conjI [OF a conjI [OF b conjI [OF c r]]])
qed

section \<open>The backing store: what each call changes\<close>

lemma listCertificateRequests_frame:
  assumes "listCertificateRequests ns w = (r, w')"
  shows "secrets w' = secrets w \<and> requests w' = requests w \<and> certificates w' = certificates w \<and>
     clock w' = clock w \<and> pending w' = pending w \<and>
     trace w' = trace w @ [ListCertificateRequests ns] \<and>
     (case r of Inl e \<Rightarrow> \<exists>msg. e = ApiError msg
      | Inr items \<Rightarrow> items = filter (\<lambda>q. req_namespace q = ns) (requests w))"
  using assms
  by (auto simp: listCertificateRequests_def apiCall_def split: list.splits option.splits)

lemma deleteCertificateRequest_frame:
  assumes "deleteCertificateRequest req w = (r, w')"
  shows "secrets w' = secrets w \<and> certificates w' = certificates w \<and>
     trace w' = trace w @ [deletion req] \<and>
     (case r of None \<Rightarrow> True | Some e \<Rightarrow> (\<exists>msg. e = ApiError msg) \<or> e = NotFound)"
  using assms
  by (auto simp: deleteCertificateRequest_def apiCall_def deletion_def
      split: list.splits option.splits if_splits)

lemma getSecret_frame:
  assumes "getSecret ns n w = (r, w')"
  shows "secrets w' = secrets w \<and> requests w' = requests w \<and> certificates w' = certificates w \<and>
     trace w' = trace w @ [GetSecret ns n] \<and>
     (case r of Inl e \<Rightarrow> (\<exists>msg. e = ApiError msg) \<or> e = NotFound | Inr s \<Rightarrow> True)"
  using assms
  by (auto simp: getSecret_def apiCall_def split: list.splits option.splits)

lemma updateSecret_frame:
  assumes "updateSecret s w = (r, w')"
  shows "requests w' = requests w \<and> certificates w' = certificates w \<and>
     trace w' = trace w @ [UpdateSecret s] \<and>
     (case r of None \<Rightarrow> True | Some e \<Rightarrow> (\<exists>msg. e = ApiError msg) \<or> e = NotFound)"
  using assms
  by (auto simp: updateSecret_def apiCall_def split: list.splits option.splits if_splits)

section \<open>The examples, evaluated\<close>

lemma crtWeb_fields:
  "crt_namespace crtWeb = ''prod''" "crt_name crtWeb = ''web''" "crt_uid crtWeb = ''uid-web''"
  "crt_secretName crtWeb = ''web-tls''"
  by (simp_all add: crtWeb_def)

lemma crtGone_fields:
  "crt_namespace crtGone = ''prod''" "crt_name crtGone = ''gone''" "crt_uid crtGone = ''uid-gone''"
  "crt_secretName crtGone = ''gone-tls''"
  by (simp_all add: crtGone_def)

lemma secretPlain_fields:
  "sec_namespace secretPlain = ''prod''" "sec_name secretPlain = ''web-tls''"
  "sec_annotations secretPlain = None"
  by (simp_all add: secretPlain_def)

lemma reqOld_fields:
  "req_namespace reqOld = ''prod''" "req_name reqOld = ''web-1''"
  "req_controller reqOld = Some ''uid-web''" "req_certificate reqOld = ''PEM-7''"
  by (simp_all add: reqOld_def)

lemma reqNew_fields:
  "req_namespace reqNew = ''prod''" "req_name reqNew = ''web-2''"
  "req_controller reqNew = Some ''uid-web''" "req_certificate reqNew = []"
  by (simp_all add: reqNew_def)

lemma worldStale_fields:
  "secrets worldStale = [secretPlain]" "requests worldStale = [reqOld, reqNew]"
  "faults worldStale = []" "trace worldStale = []"
  by (simp_all add: worldStale_def)

lemma worldPending_fields:
  "secrets worldPending = [secretPlain]" "requests worldPending = [reqNew]"
  "faults worldPending = []" "trace worldPending = []"
  by (simp_all add: worldPending_def)

lemma worldConflict_fields:
  "secrets worldConflict = [secretPlain]" "requests worldConflict = []"
  "faults worldConflict = [None, Some ''conflict'']" "trace worldConflict = []"
  by (simp_all add: worldConflict_def)

lemmas fields =
  crtWeb_fields crtGone_fields secretPlain_fields reqOld_fields reqNew_fields
  worldStale_fields worldPending_fields worldConflict_fields

lemma list_stale:
  "listCertificateRequests ''prod'' worldStale =
     (Inr [reqOld, reqNew], worldStale\<lparr>trace := [ListCertificateRequests ''prod'']\<rparr>)"
  by (simp add: listCertificateRequests_def apiCall_def fields)

lemma delete_old_stale:
  "deleteCertificateRequest reqOld (worldStale\<lparr>trace := [ListCertificateRequests ''prod'']\<rparr>) =
     (None, worldStale\<lparr>requests := [reqNew],
        trace := [ListCertificateRequests ''prod'', DeleteCertificateRequest ''prod'' ''web-1'']\<rparr>)"
  by (simp add: deleteCertificateRequest_def apiCall_def sameRequest_def fields)

lemma renew_stale:
  "renewCertificate crtWeb worldStale =
     (None, worldStale\<lparr>requests := [reqNew],
        trace := [ListCertificateRequests ''prod'', DeleteCertificateRequest ''prod'' ''web-1'']\<rparr>)"
  by (simp add: renewCertificate_def list_stale delete_old_stale isControlledBy_def fields)

lemma list_pending:
  "listCertificateRequests ''prod'' worldPending =
     (Inr [reqNew], worldPending\<lparr>trace := [ListCertificateRequests ''prod'']\<rparr>)"
  by (simp add: listCertificateRequests_def apiCall_def fields)

lemma renew_pending:
  "renewCertificate crtWeb worldPending =
     (None, worldPending\<lparr>trace := [ListCertificateRequests ''prod'']\<rparr>)"
  by (simp add: renewCertificate_def list_pending isControlledBy_def fields)

lemma list_pending_again:
  "listCertificateRequests ''prod'' (worldPending\<lparr>trace := [ListCertificateRequests ''prod'']\<rparr>) =
     (Inr [reqNew],
      worldPending\<lparr>trace := [ListCertificateRequests ''prod'', ListCertificateRequests ''prod'']\<rparr>)"
  by (simp add: listCertificateRequests_def apiCall_def fields)

lemma get_gone:
  "getSecret ''prod'' ''gone-tls''
     (worldPending\<lparr>trace := [ListCertificateRequests ''prod'', ListCertificateRequests ''prod'']\<rparr>) =
     (Inl NotFound,
      worldPending\<lparr>trace := [ListCertificateRequests ''prod'', ListCertificateRequests ''prod'',
        GetSecret ''prod'' ''gone-tls'']\<rparr>)"
  by (simp add: getSecret_def apiCall_def sameSecret_def fields)

lemma renew_gone:
  "renewCertificate crtGone (worldPending\<lparr>trace := [ListCertificateRequests ''prod'']\<rparr>) =
     (Some NotFound,
      worldPending\<lparr>trace := [ListCertificateRequests ''prod'', ListCertificateRequests ''prod'',
        GetSecret ''prod'' ''gone-tls'']\<rparr>)"
  by (simp add: renewCertificate_def list_pending_again annotate_def get_gone isControlledBy_def fields)

lemma get_conflict:
  "getSecret ''prod'' ''web-tls'' worldConflict =
     (Inr secretPlain, worldConflict\<lparr>faults := [Some ''conflict''],
        trace := [GetSecret ''prod'' ''web-tls'']\<rparr>)"
  by (simp add: getSecret_def apiCall_def sameSecret_def fields)

lemma annotation_plain:
  "setIssuerNameAnnotation secretPlain =
     Inr (secretPlain\<lparr>sec_annotations := Some [(IssuerNameAnnotationKey, ''force-renewal-triggered'')]\<rparr>)"
  by (simp add: setIssuerNameAnnotation_def mapAssign_def fields)

lemma update_conflict:
  "fst (updateSecret
     (secretPlain\<lparr>sec_annotations := Some [(IssuerNameAnnotationKey, ''force-renewal-triggered'')]\<rparr>)
     (worldConflict\<lparr>faults := [Some ''conflict''], trace := [GetSecret ''prod'' ''web-tls'']\<rparr>)) =
     Some (ApiError ''conflict'')"
  by (simp add: updateSecret_def apiCall_def)

lemma annotate_conflict:
  "fst (annotate crtWeb worldConflict) = Some (ApiError ''conflict'')"
  using update_conflict by (simp add: annotate_def get_conflict annotation_plain fields)

section \<open>renewCertificate\<close>

subsection \<open>A request in progress\<close>

lemma staleBefore_members:
  "req \<in> set (staleBefore cert items) \<Longrightarrow>
     req \<in> set items \<and> isControlledBy req cert \<and> req_certificate req \<noteq> []"
  by (auto simp: staleBefore_def inProgress_def dest: set_takeWhileD)

lemma cancelStale_in_progress:
  assumes "list_ex (inProgress cert) items"
  shows "\<exists>k r w'. cancelStale cert items w = (Returned r, w') \<and>
     k \<le> length (staleBefore cert items) \<and>
     trace w' = trace w @ map deletion (take k (staleBefore cert items)) \<and>
     secrets w' = secrets w \<and>
     (r = None \<longrightarrow> k = length (staleBefore cert items)) \<and>
     (staleBefore cert items = [] \<longrightarrow> r = None \<and> w' = w)"
  using assms
proof (induction items arbitrary: w)
  case Nil
  then show ?case by simp
next
  case (Cons req rest)
  show ?case
  proof (cases "isControlledBy req cert")
    case False
    then have "\<not> inProgress cert req"
      by (simp add: inProgress_def)
    then have ex: "list_ex (inProgress cert) rest"
      using Cons.prems by simp
    have st: "staleBefore cert (req # rest) = staleBefore cert rest"
      using False by (simp add: staleBefore_def inProgress_def)
    show ?thesis
      using Cons.IH [OF ex, of w] False by (simp add: st)
  next
    case True
    show ?thesis
    proof (cases "length (req_certificate req) = 0")
      case True
      with \<open>isControlledBy req cert\<close> show ?thesis
        by (simp add: staleBefore_def inProgress_def)
    next
      case False
      then have "\<not> inProgress cert req"
        by (simp add: inProgress_def)
      then have ex: "list_ex (inProgress cert) rest"
        using Cons.prems by simp
      have st: "staleBefore cert (req # rest) = req # staleBefore cert rest"
        using True False by (simp add: staleBefore_def inProgress_def)
      obtain r1 w1 where del: "deleteCertificateRequest req w = (r1, w1)"
        by (cases "deleteCertificateRequest req w")
      note fr = deleteCertificateRequest_frame [OF del]
      show ?thesis
      proof (cases r1)
        case (Some err)
        have "cancelStale cert (req # rest) w = (Returned (Some err), w1)"
          using True False del Some by simp
        moreover have "trace w1 = trace w @ map deletion (take 1 (staleBefore cert (req # rest)))"
          using fr by (simp add: st)
        ultimately show ?thesis
          using fr st by (intro exI [of _ 1]) simp
      next
        case None
        have cs: "cancelStale cert (req # rest) w = cancelStale cert rest w1"
          using True False del None by simp
        from Cons.IH [OF ex, of w1] obtain k r w' where
          ih: "cancelStale cert rest w1 = (Returned r, w')"
            "k \<le> length (staleBefore cert rest)"
            "trace w' = trace w1 @ map deletion (take k (staleBefore cert rest))"
            "secrets w' = secrets w1"
            "r = None \<longrightarrow> k = length (staleBefore cert rest)"
          by blast
        show ?thesis
          using ih fr cs st by (intro exI [of _ "Suc k"]) simp
      qed
    qed
  qed
qed

text \<open>
  C2, as the claim states it, fails: in \<open>worldStale\<close> the certificate controls a request
  in progress, \<open>reqNew\<close>, and a completed one, \<open>reqOld\<close>, that is listed before it. The
  run deletes \<open>reqOld\<close> before it meets \<open>reqNew\<close>, and then returns success.
\<close>

theorem in_progress_counterexample:
  "reqNew \<in> set (requests worldStale) \<and>
   req_namespace reqNew = crt_namespace crtWeb \<and>
   inProgress crtWeb reqNew \<and>
   renewCertificate crtWeb worldStale =
     (None, worldStale\<lparr>requests := [reqNew],
        trace := [ListCertificateRequests ''prod'', DeleteCertificateRequest ''prod'' ''web-1'']\<rparr>) \<and>
   requests (snd (renewCertificate crtWeb worldStale)) \<noteq> requests worldStale"
  by (simp add: renew_stale inProgress_def isControlledBy_def fields)

lemma cancelStale_deleteEach:
  assumes "list_ex (inProgress cert) items"
  shows "cancelStale cert items w =
     (Returned (fst (deleteEach (staleBefore cert items) w)), snd (deleteEach (staleBefore cert items) w))"
  using assms
proof (induction items arbitrary: w)
  case Nil
  then show ?case by simp
next
  case (Cons req rest)
  show ?case
  proof (cases "isControlledBy req cert")
    case False
    then have "\<not> inProgress cert req"
      by (simp add: inProgress_def)
    then have ex: "list_ex (inProgress cert) rest"
      using Cons.prems by simp
    have st: "staleBefore cert (req # rest) = staleBefore cert rest"
      using False by (simp add: staleBefore_def inProgress_def)
    show ?thesis
      using Cons.IH [OF ex, of w] False by (simp add: st)
  next
    case True
    show ?thesis
    proof (cases "length (req_certificate req) = 0")
      case True
      with \<open>isControlledBy req cert\<close> show ?thesis
        by (simp add: staleBefore_def inProgress_def)
    next
      case False
      then have "\<not> inProgress cert req"
        by (simp add: inProgress_def)
      then have ex: "list_ex (inProgress cert) rest"
        using Cons.prems by simp
      have st: "staleBefore cert (req # rest) = req # staleBefore cert rest"
        using True False by (simp add: staleBefore_def inProgress_def)
      obtain r1 w1 where del: "deleteCertificateRequest req w = (r1, w1)"
        by (cases "deleteCertificateRequest req w")
      show ?thesis
        using True False del Cons.IH [OF ex, of w1] by (cases r1) (simp_all add: st)
    qed
  qed
qed

lemma deleteEach_append:
  "fst (deleteEach xs w) = None \<Longrightarrow> deleteEach (xs @ ys) w = deleteEach ys (snd (deleteEach xs w))"
  by (induction xs arbitrary: w) (auto split: prod.splits option.splits)

lemma deleteEach_trace:
  "fst (deleteEach rs w) = None \<Longrightarrow> trace (snd (deleteEach rs w)) = trace w @ map deletion rs"
proof (induction rs arbitrary: w)
  case Nil
  then show ?case by simp
next
  case (Cons req rest)
  obtain r1 w1 where del: "deleteCertificateRequest req w = (r1, w1)"
    by (cases "deleteCertificateRequest req w")
  show ?case
    using Cons del deleteCertificateRequest_frame [OF del]
    by (cases r1) simp_all
qed

lemma deleteEach_stops:
  assumes "k < length rs"
    and "fst (deleteEach (take k rs) w) = None"
    and "fst (deleteCertificateRequest (rs ! k) (snd (deleteEach (take k rs) w))) = Some e"
  shows "deleteEach rs w = (Some e, snd (deleteCertificateRequest (rs ! k) (snd (deleteEach (take k rs) w)))) \<and>
     trace (snd (deleteEach rs w)) = trace w @ map deletion (take (Suc k) rs)"
proof -
  let ?u = "snd (deleteEach (take k rs) w)"
  obtain r1 u1 where del: "deleteCertificateRequest (rs ! k) ?u = (r1, u1)"
    by (cases "deleteCertificateRequest (rs ! k) ?u")
  have r1: "r1 = Some e"
    using assms(3) del by simp
  have "rs = take k rs @ rs ! k # drop (Suc k) rs"
    using assms(1) by (rule id_take_nth_drop)
  then have "deleteEach rs w = deleteEach (take k rs @ rs ! k # drop (Suc k) rs) w"
    by simp
  also have "\<dots> = deleteEach (rs ! k # drop (Suc k) rs) ?u"
    by (rule deleteEach_append [OF assms(2)])
  also have "\<dots> = (Some e, u1)"
    using del r1 by simp
  finally have eq: "deleteEach rs w = (Some e, u1)" .
  have "trace u1 = trace ?u @ [deletion (rs ! k)]"
    using deleteCertificateRequest_frame [OF del] by simp
  also have "trace ?u = trace w @ map deletion (take k rs)"
    by (rule deleteEach_trace [OF assms(2)])
  finally have "trace u1 = trace w @ map deletion (take (Suc k) rs)"
    using assms(1) by (simp add: take_Suc_conv_app_nth)
  then show ?thesis
    using eq del by simp
qed

lemma deleteEach_all_succeed:
  "faults u = [] \<Longrightarrow> distinct (map (\<lambda>r. (req_namespace r, req_name r)) rs) \<Longrightarrow>
   set rs \<subseteq> set (requests u) \<Longrightarrow>
   fst (deleteEach rs u) = None \<and>
   requests (snd (deleteEach rs u)) =
     filter (\<lambda>r. \<forall>q\<in>set rs. \<not> sameRequest (req_namespace q) (req_name q) r) (requests u)"
proof (induction rs arbitrary: u)
  case Nil
  then show ?case by simp
next
  case (Cons req rest)
  let ?u1 = "u\<lparr>trace := trace u @ [DeleteCertificateRequest (req_namespace req) (req_name req)],
    requests := filter (\<lambda>r. \<not> sameRequest (req_namespace req) (req_name req) r) (requests u)\<rparr>"
  have mem: "req \<in> set (requests u)"
    using Cons.prems(3) by simp
  have "sameRequest (req_namespace req) (req_name req) req"
    by (simp add: sameRequest_def)
  then have ex: "list_ex (sameRequest (req_namespace req) (req_name req)) (requests u)"
    using mem by (auto simp: list_ex_iff)
  have del: "deleteCertificateRequest req u = (None, ?u1)"
    using Cons.prems(1) ex by (simp add: deleteCertificateRequest_def apiCall_def)
  have f1: "faults ?u1 = []"
    using Cons.prems(1) by simp
  have d1: "distinct (map (\<lambda>r. (req_namespace r, req_name r)) rest)"
    using Cons.prems(2) by simp
  have s1: "set rest \<subseteq> set (requests ?u1)"
  proof
    fix q assume q: "q \<in> set rest"
    then have "(req_namespace q, req_name q) \<noteq> (req_namespace req, req_name req)"
      using Cons.prems(2) by (fastforce simp: image_iff)
    then have "\<not> sameRequest (req_namespace req) (req_name req) q"
      by (auto simp: sameRequest_def)
    moreover have "q \<in> set (requests u)"
      using Cons.prems(3) q by auto
    ultimately show "q \<in> set (requests ?u1)"
      by simp
  qed
  note ih = Cons.IH [OF f1 d1 s1]
  have "deleteEach (req # rest) u = deleteEach rest ?u1"
    using del by simp
  then show ?case
    using ih by (auto intro: filter_cong)
qed

lemma listCertificateRequests_no_faults:
  "faults w = [] \<Longrightarrow>
     listCertificateRequests ns w =
       (Inr (filter (\<lambda>r. req_namespace r = ns) (requests w)),
        w\<lparr>trace := trace w @ [ListCertificateRequests ns]\<rparr>)"
  by (simp add: listCertificateRequests_def apiCall_def)

text \<open>
  C2, amended. When the listing of the namespace succeeds and holds a request in progress
  for the certificate, the run never reads or writes a secret and never polls. What it
  does after the listing is to delete, in the order of the listing, the completed
  requests of the certificate that are listed before the first one in progress: a
  deletion that fails ends the run with the error of that deletion, and when every
  deletion succeeds the run returns success, as it does in a world whose calls succeed and
  whose requests have distinct names. When no such request is listed before the first one
  in progress, the run deletes nothing, returns success and leaves the store as it is.
\<close>

theorem renewCertificate_in_progress:
  assumes "listCertificateRequests (crt_namespace cert) w = (Inr items, w1)"
    and "list_ex (inProgress cert) items"
  shows "renewCertificate cert w = deleteEach (staleBefore cert items) w1 \<and>
     secrets (snd (renewCertificate cert w)) = secrets w \<and>
     (\<exists>n. n \<le> length (staleBefore cert items) \<and>
        trace (snd (renewCertificate cert w)) =
          trace w @ ListCertificateRequests (crt_namespace cert) #
            map deletion (take n (staleBefore cert items)) \<and>
        (fst (renewCertificate cert w) = None \<longrightarrow> n = length (staleBefore cert items))) \<and>
     (\<forall>req\<in>set (staleBefore cert items).
        req \<in> set items \<and> isControlledBy req cert \<and> req_certificate req \<noteq> []) \<and>
     (k < length (staleBefore cert items) \<and>
        fst (deleteEach (take k (staleBefore cert items)) w1) = None \<and>
        fst (deleteCertificateRequest (staleBefore cert items ! k)
               (snd (deleteEach (take k (staleBefore cert items)) w1))) = Some e \<longrightarrow>
        renewCertificate cert w =
          (Some e, snd (deleteCertificateRequest (staleBefore cert items ! k)
                          (snd (deleteEach (take k (staleBefore cert items)) w1)))) \<and>
        trace (snd (renewCertificate cert w)) =
          trace w @ ListCertificateRequests (crt_namespace cert) #
            map deletion (take (Suc k) (staleBefore cert items))) \<and>
     (fst (deleteEach (staleBefore cert items) w1) = None \<longrightarrow>
        fst (renewCertificate cert w) = None \<and>
        trace (snd (renewCertificate cert w)) =
          trace w @ ListCertificateRequests (crt_namespace cert) #
            map deletion (staleBefore cert items)) \<and>
     (faults w = [] \<and>
        distinct (map (\<lambda>r. (req_namespace r, req_name r)) (staleBefore cert items)) \<longrightarrow>
        fst (renewCertificate cert w) = None \<and>
        trace (snd (renewCertificate cert w)) =
          trace w @ ListCertificateRequests (crt_namespace cert) #
            map deletion (staleBefore cert items) \<and>
        requests (snd (renewCertificate cert w)) =
          filter (\<lambda>r. \<forall>q\<in>set (staleBefore cert items).
                    \<not> sameRequest (req_namespace q) (req_name q) r) (requests w)) \<and>
     (staleBefore cert items = [] \<longrightarrow>
        renewCertificate cert w = (None, w1) \<and> requests w1 = requests w \<and> secrets w1 = secrets w)"
proof -
  let ?stale = "staleBefore cert items"
  note fr = listCertificateRequests_frame [OF assms(1)]
  have tr1: "trace w1 = trace w @ [ListCertificateRequests (crt_namespace cert)]"
    using fr by simp
  have rc: "renewCertificate cert w = deleteEach ?stale w1"
    using assms(1) cancelStale_deleteEach [OF assms(2), of w1]
    by (simp add: renewCertificate_def)
  from cancelStale_in_progress [OF assms(2), of w1] obtain n r w' where
    cs: "cancelStale cert items w1 = (Returned r, w')"
      "n \<le> length ?stale"
      "trace w' = trace w1 @ map deletion (take n ?stale)"
      "secrets w' = secrets w1"
      "r = None \<longrightarrow> n = length ?stale"
      "?stale = [] \<longrightarrow> r = None \<and> w' = w1"
    by blast
  have rc': "renewCertificate cert w = (r, w')"
    using assms(1) cs(1) by (simp add: renewCertificate_def)
  have a: "secrets (snd (renewCertificate cert w)) = secrets w"
    using rc' cs fr by simp
  have b: "\<exists>n. n \<le> length ?stale \<and>
        trace (snd (renewCertificate cert w)) =
          trace w @ ListCertificateRequests (crt_namespace cert) # map deletion (take n ?stale) \<and>
        (fst (renewCertificate cert w) = None \<longrightarrow> n = length ?stale)"
    using rc' cs fr by (intro exI [of _ n]) simp
  have c: "\<forall>req\<in>set ?stale. req \<in> set items \<and> isControlledBy req cert \<and> req_certificate req \<noteq> []"
    using staleBefore_members by blast
  have d: "k < length ?stale \<and> fst (deleteEach (take k ?stale) w1) = None \<and>
        fst (deleteCertificateRequest (?stale ! k) (snd (deleteEach (take k ?stale) w1))) = Some e \<longrightarrow>
        renewCertificate cert w =
          (Some e, snd (deleteCertificateRequest (?stale ! k) (snd (deleteEach (take k ?stale) w1)))) \<and>
        trace (snd (renewCertificate cert w)) =
          trace w @ ListCertificateRequests (crt_namespace cert) # map deletion (take (Suc k) ?stale)"
  proof (intro impI, elim conjE)
    assume h: "k < length ?stale" "fst (deleteEach (take k ?stale) w1) = None"
      "fst (deleteCertificateRequest (?stale ! k) (snd (deleteEach (take k ?stale) w1))) = Some e"
    note st = deleteEach_stops [OF h]
    have e1: "renewCertificate cert w =
          (Some e, snd (deleteCertificateRequest (?stale ! k) (snd (deleteEach (take k ?stale) w1))))"
      by (rule trans [OF rc st [THEN conjunct1]])
    have "trace (snd (deleteEach ?stale w1)) = trace w1 @ map deletion (take (Suc k) ?stale)"
      by (rule st [THEN conjunct2])
    then have "trace (snd (renewCertificate cert w)) =
          (trace w @ [ListCertificateRequests (crt_namespace cert)]) @ map deletion (take (Suc k) ?stale)"
      by (simp only: rc tr1)
    then have e2: "trace (snd (renewCertificate cert w)) =
          trace w @ ListCertificateRequests (crt_namespace cert) # map deletion (take (Suc k) ?stale)"
      by simp
    show "renewCertificate cert w =
          (Some e, snd (deleteCertificateRequest (?stale ! k) (snd (deleteEach (take k ?stale) w1)))) \<and>
        trace (snd (renewCertificate cert w)) =
          trace w @ ListCertificateRequests (crt_namespace cert) # map deletion (take (Suc k) ?stale)"
      by (rule conjI [OF e1 e2])
  qed
  have f: "fst (deleteEach ?stale w1) = None \<longrightarrow>
        fst (renewCertificate cert w) = None \<and>
        trace (snd (renewCertificate cert w)) =
          trace w @ ListCertificateRequests (crt_namespace cert) # map deletion ?stale"
    using deleteEach_trace [of ?stale w1] by (simp add: rc tr1)
  have g: "faults w = [] \<and> distinct (map (\<lambda>r. (req_namespace r, req_name r)) ?stale) \<longrightarrow>
        fst (renewCertificate cert w) = None \<and>
        trace (snd (renewCertificate cert w)) =
          trace w @ ListCertificateRequests (crt_namespace cert) # map deletion ?stale \<and>
        requests (snd (renewCertificate cert w)) =
          filter (\<lambda>r. \<forall>q\<in>set ?stale. \<not> sameRequest (req_namespace q) (req_name q) r) (requests w)"
  proof (intro impI, elim conjE)
    assume nf: "faults w = []"
      and di: "distinct (map (\<lambda>r. (req_namespace r, req_name r)) ?stale)"
    have l: "listCertificateRequests (crt_namespace cert) w =
        (Inr (filter (\<lambda>r. req_namespace r = crt_namespace cert) (requests w)),
         w\<lparr>trace := trace w @ [ListCertificateRequests (crt_namespace cert)]\<rparr>)"
      by (rule listCertificateRequests_no_faults [OF nf])
    have w1: "w1 = w\<lparr>trace := trace w @ [ListCertificateRequests (crt_namespace cert)]\<rparr>"
      and it: "items = filter (\<lambda>r. req_namespace r = crt_namespace cert) (requests w)"
      using l assms(1) by simp_all
    have f1: "faults w1 = []"
      using nf w1 by simp
    have rq: "requests w1 = requests w"
      using fr by simp
    have sub: "set ?stale \<subseteq> set (requests w1)"
    proof
      fix q assume "q \<in> set ?stale"
      then have "q \<in> set items"
        by (rule staleBefore_members [THEN conjunct1])
      then have "q \<in> set (filter (\<lambda>r. req_namespace r = crt_namespace cert) (requests w))"
        by (simp only: it)
      then have "q \<in> set (requests w)"
        by simp
      then show "q \<in> set (requests w1)"
        by (simp only: rq)
    qed
    note ok = deleteEach_all_succeed [OF f1 di sub]
    show "fst (renewCertificate cert w) = None \<and>
        trace (snd (renewCertificate cert w)) =
          trace w @ ListCertificateRequests (crt_namespace cert) # map deletion ?stale \<and>
        requests (snd (renewCertificate cert w)) =
          filter (\<lambda>r. \<forall>q\<in>set ?stale. \<not> sameRequest (req_namespace q) (req_name q) r) (requests w)"
      using ok f by (simp add: rc rq)
  qed
  have h: "?stale = [] \<longrightarrow>
        renewCertificate cert w = (None, w1) \<and> requests w1 = requests w \<and> secrets w1 = secrets w"
    using rc' cs fr by simp
  show ?thesis
    by (rule conjI [OF rc conjI [OF a conjI [OF b conjI [OF c conjI [OF d conjI [OF f conjI [OF g h]]]]]]])
qed

lemma worldDenied_fields:
  "secrets worldDenied = [secretPlain]" "requests worldDenied = [reqOld, reqNew]"
  "faults worldDenied = [None, Some ''denied'']" "trace worldDenied = []"
  by (simp_all add: worldDenied_def)

lemma list_denied:
  "listCertificateRequests (crt_namespace crtWeb) worldDenied =
     (Inr [reqOld, reqNew],
      worldDenied\<lparr>faults := [Some ''denied''], trace := [ListCertificateRequests ''prod'']\<rparr>)"
  by (simp add: listCertificateRequests_def apiCall_def fields worldDenied_fields)

lemma in_progress_old_new: "list_ex (inProgress crtWeb) [reqOld, reqNew]"
  by (simp add: inProgress_def isControlledBy_def fields)

lemma stale_old_new: "staleBefore crtWeb [reqOld, reqNew] = [reqOld]"
  by (simp add: staleBefore_def inProgress_def isControlledBy_def fields)

lemma delete_denied:
  "fst (deleteCertificateRequest reqOld
     (worldDenied\<lparr>faults := [Some ''denied''], trace := [ListCertificateRequests ''prod'']\<rparr>)) =
     Some (ApiError ''denied'')"
  by (simp add: deleteCertificateRequest_def apiCall_def)

theorem renewCertificate_in_progress_witness:
  "(listCertificateRequests (crt_namespace crtWeb) worldPending =
      (Inr [reqNew], worldPending\<lparr>trace := [ListCertificateRequests ''prod'']\<rparr>) \<and>
    list_ex (inProgress crtWeb) [reqNew] \<and>
    staleBefore crtWeb [reqNew] = [] \<and>
    renewCertificate crtWeb worldPending =
      (None, worldPending\<lparr>trace := [ListCertificateRequests ''prod'']\<rparr>) \<and>
    requests (worldPending\<lparr>trace := [ListCertificateRequests ''prod'']\<rparr>) = requests worldPending \<and>
    secrets (worldPending\<lparr>trace := [ListCertificateRequests ''prod'']\<rparr>) = secrets worldPending) \<and>
   (listCertificateRequests (crt_namespace crtWeb) worldStale =
      (Inr [reqOld, reqNew], worldStale\<lparr>trace := [ListCertificateRequests ''prod'']\<rparr>) \<and>
    list_ex (inProgress crtWeb) [reqOld, reqNew] \<and>
    staleBefore crtWeb [reqOld, reqNew] = [reqOld] \<and>
    faults worldStale = [] \<and>
    fst (renewCertificate crtWeb worldStale) = None \<and>
    trace (snd (renewCertificate crtWeb worldStale)) =
      trace worldStale @ ListCertificateRequests (crt_namespace crtWeb) #
        map deletion (staleBefore crtWeb [reqOld, reqNew]) \<and>
    requests (snd (renewCertificate crtWeb worldStale)) =
      filter (\<lambda>r. \<forall>q\<in>set (staleBefore crtWeb [reqOld, reqNew]).
                \<not> sameRequest (req_namespace q) (req_name q) r) (requests worldStale)) \<and>
   (listCertificateRequests (crt_namespace crtWeb) worldDenied =
      (Inr [reqOld, reqNew],
       worldDenied\<lparr>faults := [Some ''denied''], trace := [ListCertificateRequests ''prod'']\<rparr>) \<and>
    renewCertificate crtWeb worldDenied =
      (Some (ApiError ''denied''),
       snd (deleteCertificateRequest (staleBefore crtWeb [reqOld, reqNew] ! 0)
              (snd (deleteEach (take 0 (staleBefore crtWeb [reqOld, reqNew]))
                      (worldDenied\<lparr>faults := [Some ''denied''],
                         trace := [ListCertificateRequests ''prod'']\<rparr>))))) \<and>
    trace (snd (renewCertificate crtWeb worldDenied)) =
      trace worldDenied @ ListCertificateRequests (crt_namespace crtWeb) #
        map deletion (take (Suc 0) (staleBefore crtWeb [reqOld, reqNew])))"
proof -
  have p1: "listCertificateRequests (crt_namespace crtWeb) worldPending =
      (Inr [reqNew], worldPending\<lparr>trace := [ListCertificateRequests ''prod'']\<rparr>)"
    by (simp add: list_pending fields)
  have p2: "list_ex (inProgress crtWeb) [reqNew]"
    by (simp add: inProgress_def isControlledBy_def fields)
  have p3: "staleBefore crtWeb [reqNew] = []"
    by (simp add: staleBefore_def inProgress_def isControlledBy_def fields)
  note pr = renewCertificate_in_progress [OF p1 p2]
  note p4 = pr [THEN conjunct2, THEN conjunct2, THEN conjunct2, THEN conjunct2, THEN conjunct2,
      THEN conjunct2, THEN conjunct2, THEN mp, OF p3]
  have s1: "listCertificateRequests (crt_namespace crtWeb) worldStale =
      (Inr [reqOld, reqNew], worldStale\<lparr>trace := [ListCertificateRequests ''prod'']\<rparr>)"
    by (simp add: list_stale fields)
  have s3: "faults worldStale = []"
    by (simp add: fields)
  have s4: "distinct (map (\<lambda>r. (req_namespace r, req_name r)) (staleBefore crtWeb [reqOld, reqNew]))"
    by (simp add: stale_old_new)
  note sr = renewCertificate_in_progress [OF s1 in_progress_old_new]
  note s5 = sr [THEN conjunct2, THEN conjunct2, THEN conjunct2, THEN conjunct2, THEN conjunct2,
      THEN conjunct2, THEN conjunct1, THEN mp, OF conjI [OF s3 s4]]
  have d1: "(0::nat) < length (staleBefore crtWeb [reqOld, reqNew])"
    by (simp add: stale_old_new)
  have d2: "fst (deleteEach (take 0 (staleBefore crtWeb [reqOld, reqNew]))
      (worldDenied\<lparr>faults := [Some ''denied''], trace := [ListCertificateRequests ''prod'']\<rparr>)) = None"
    by simp
  have d3: "fst (deleteCertificateRequest (staleBefore crtWeb [reqOld, reqNew] ! 0)
      (snd (deleteEach (take 0 (staleBefore crtWeb [reqOld, reqNew]))
         (worldDenied\<lparr>faults := [Some ''denied''], trace := [ListCertificateRequests ''prod'']\<rparr>)))) =
      Some (ApiError ''denied'')"
    using delete_denied by (simp add: stale_old_new)
  note dr = renewCertificate_in_progress [OF list_denied in_progress_old_new,
      where k = 0 and e = "ApiError ''denied''"]
  note d4 = dr [THEN conjunct2, THEN conjunct2, THEN conjunct2, THEN conjunct2, THEN conjunct1,
      THEN mp, OF conjI [OF d1 conjI [OF d2 d3]]]
  show ?thesis
    by (rule conjI [OF conjI [OF p1 conjI [OF p2 conjI [OF p3 p4]]]
          conjI [OF conjI [OF s1 conjI [OF in_progress_old_new conjI [OF stale_old_new conjI [OF s3 s5]]]]
                    conjI [OF list_denied d4]]])
qed

subsection \<open>Renewals in sequence\<close>

lemma renewAll_append:
  "fst (renewAll before w) = None \<Longrightarrow>
     renewAll (before @ rest) w = renewAll rest (snd (renewAll before w))"
  by (induction before arbitrary: w) (auto split: prod.splits option.splits)

subsection \<open>The annotation write\<close>

lemma setIssuerNameAnnotation_ok:
  "\<exists>anns. setIssuerNameAnnotation secret = Inr (secret\<lparr>sec_annotations := Some anns\<rparr>) \<and>
     map_of anns IssuerNameAnnotationKey = Some ''force-renewal-triggered''"
proof (cases "sec_annotations secret")
  case None
  then have "setIssuerNameAnnotation secret =
      Inr (secret\<lparr>sec_annotations := Some [(IssuerNameAnnotationKey, ''force-renewal-triggered'')]\<rparr>)"
    by (simp add: setIssuerNameAnnotation_def mapAssign_def)
  then show ?thesis
    by (intro exI [of _ "[(IssuerNameAnnotationKey, ''force-renewal-triggered'')]"]) simp
next
  case (Some al)
  then have "setIssuerNameAnnotation secret =
      Inr (secret\<lparr>sec_annotations :=
        Some (AList.update IssuerNameAnnotationKey ''force-renewal-triggered'' al)\<rparr>)"
    by (simp add: setIssuerNameAnnotation_def mapAssign_def)
  then show ?thesis
    by (intro exI [of _ "AList.update IssuerNameAnnotationKey ''force-renewal-triggered'' al"])
      (simp add: update_conv')
qed

lemma annotate_failure:
  assumes "fst (annotate cert w) = Some e"
  shows "fst (getSecret (crt_namespace cert) (crt_secretName cert) w) = Inl e \<or>
     (\<exists>secret w1 secret'. getSecret (crt_namespace cert) (crt_secretName cert) w = (Inr secret, w1) \<and>
        setIssuerNameAnnotation secret = Inr secret' \<and> fst (updateSecret secret' w1) = Some e)"
proof (cases "getSecret (crt_namespace cert) (crt_secretName cert) w")
  case (Pair r w1)
  show ?thesis
  proof (cases r)
    case (Inl err)
    then show ?thesis using assms Pair by (simp add: annotate_def)
  next
    case (Inr secret)
    obtain anns where a: "setIssuerNameAnnotation secret = Inr (secret\<lparr>sec_annotations := Some anns\<rparr>)"
      using setIssuerNameAnnotation_ok by blast
    then show ?thesis using assms Pair Inr by (simp add: annotate_def)
  qed
qed

lemma annotate_errors:
  assumes "fst (annotate cert w) = Some e"
  shows "apiFailure e"
proof -
  from annotate_failure [OF assms] show ?thesis
  proof
    assume "fst (getSecret (crt_namespace cert) (crt_secretName cert) w) = Inl e"
    then show ?thesis
      using getSecret_frame [of "crt_namespace cert" "crt_secretName cert" w]
      by (cases "getSecret (crt_namespace cert) (crt_secretName cert) w") (auto simp: apiFailure_def)
  next
    assume "\<exists>secret w1 secret'. getSecret (crt_namespace cert) (crt_secretName cert) w = (Inr secret, w1) \<and>
        setIssuerNameAnnotation secret = Inr secret' \<and> fst (updateSecret secret' w1) = Some e"
    then obtain secret' w1 where "fst (updateSecret secret' w1) = Some e" by blast
    then show ?thesis
      using updateSecret_frame [of secret' w1]
      by (cases "updateSecret secret' w1") (auto simp: apiFailure_def)
  qed
qed

lemma cancelStale_errors:
  "cancelStale cert items w = (Returned (Some e), w') \<Longrightarrow> apiFailure e"
proof (induction items arbitrary: w)
  case Nil
  then show ?case by simp
next
  case (Cons req rest)
  obtain r1 w1 where del: "deleteCertificateRequest req w = (r1, w1)"
    by (cases "deleteCertificateRequest req w")
  show ?case
    using Cons del deleteCertificateRequest_frame [OF del]
    by (auto simp: apiFailure_def split: if_splits option.splits)
qed

lemma requestExists_errors:
  "requestExists cert w = (Inl e, w') \<Longrightarrow> apiFailure e"
  using listCertificateRequests_frame [of "crt_namespace cert" w]
  by (cases "listCertificateRequests (crt_namespace cert) w")
    (auto simp: requestExists_def apiFailure_def split: sum.splits)

lemma pollLoop_errors:
  "pollLoop n i (requestExists cert) w = (Some e, w') \<Longrightarrow> apiFailure e \<or> e = ErrWaitTimeout"
proof (induction n arbitrary: w)
  case 0
  then show ?case by simp
next
  case (Suc n)
  obtain r w1 where c: "requestExists cert (sleep i w) = (r, w1)"
    by (cases "requestExists cert (sleep i w)")
  show ?case
    using Suc c requestExists_errors [of cert "sleep i w"]
    by (auto split: sum.splits bool.splits if_splits)
qed

lemma renewCertificate_errors:
  assumes "fst (renewCertificate cert w) = Some e"
  shows "apiFailure e \<or> e = ErrWaitTimeout"
proof -
  obtain r1 w1 where l: "listCertificateRequests (crt_namespace cert) w = (r1, w1)"
    by (cases "listCertificateRequests (crt_namespace cert) w")
  show ?thesis
  proof (cases r1)
    case (Inl err)
    then show ?thesis
      using assms l listCertificateRequests_frame [OF l]
      by (auto simp: renewCertificate_def apiFailure_def)
  next
    case (Inr items)
    obtain x w2 where cs: "cancelStale cert items w1 = (x, w2)"
      by (cases "cancelStale cert items w1")
    show ?thesis
    proof (cases x)
      case (Returned r)
      then show ?thesis
        using assms l Inr cs cancelStale_errors [of cert items w1 e w2]
        by (simp add: renewCertificate_def)
    next
      case Completed
      obtain r3 w3 where an: "annotate cert w2 = (r3, w3)"
        by (cases "annotate cert w2")
      show ?thesis
      proof (cases r3)
        case (Some err)
        then show ?thesis
          using assms l Inr cs Completed an annotate_errors [of cert w2 e]
          by (simp add: renewCertificate_def)
      next
        case None
        obtain r4 w4 where aw: "awaitRequest cert w3 = (r4, w4)"
          by (cases "awaitRequest cert w3")
        then show ?thesis
          using assms l Inr cs Completed an None pollLoop_errors [of _ _ cert w3 e w4]
          by (simp add: renewCertificate_def awaitRequest_def poll_def)
      qed
    qed
  qed
qed

text \<open>
  C10. For every copy of the secret, with or without an annotation map, lines 196 to
  199 yield the secret with the issuer annotation set to the sentinel and never the panic
  of a write to a \<^verbatim>\<open>nil\<close> map. The annotation step fails only with the error of the
  read or with the error of the write back, and neither it nor the renewal of a
  certificate ever ends in a panic.
\<close>

theorem annotation_write_never_faults:
  "(\<exists>anns. setIssuerNameAnnotation secret = Inr (secret\<lparr>sec_annotations := Some anns\<rparr>) \<and>
      map_of anns IssuerNameAnnotationKey = Some ''force-renewal-triggered'') \<and>
   (fst (annotate cert w) = Some e \<longrightarrow>
      fst (getSecret (crt_namespace cert) (crt_secretName cert) w) = Inl e \<or>
      (\<exists>secret w1 secret'. getSecret (crt_namespace cert) (crt_secretName cert) w = (Inr secret, w1) \<and>
         setIssuerNameAnnotation secret = Inr secret' \<and> fst (updateSecret secret' w1) = Some e)) \<and>
   fst (annotate cert w) \<noteq> Some (Panic msg) \<and>
   fst (renewCertificate cert w) \<noteq> Some (Panic msg)"
proof -
  have a: "fst (annotate cert w) \<noteq> Some (Panic msg)"
    using annotate_errors [of cert w "Panic msg"] by (auto simp: apiFailure_def)
  have b: "fst (renewCertificate cert w) \<noteq> Some (Panic msg)"
    using renewCertificate_errors [of cert w "Panic msg"] by (auto simp: apiFailure_def)
  have c: "fst (annotate cert w) = Some e \<longrightarrow>
      fst (getSecret (crt_namespace cert) (crt_secretName cert) w) = Inl e \<or>
      (\<exists>secret w1 secret'. getSecret (crt_namespace cert) (crt_secretName cert) w = (Inr secret, w1) \<and>
         setIssuerNameAnnotation secret = Inr secret' \<and> fst (updateSecret secret' w1) = Some e)"
    using annotate_failure [of cert w e] by (rule impI)
  show ?thesis
    by (rule conjI [OF setIssuerNameAnnotation_ok conjI [OF c conjI [OF a b]]])
qed

theorem annotation_write_never_faults_witness:
  "setIssuerNameAnnotation secretPlain =
     Inr (secretPlain\<lparr>sec_annotations := Some [(IssuerNameAnnotationKey, ''force-renewal-triggered'')]\<rparr>) \<and>
   fst (annotate crtWeb worldConflict) = Some (ApiError ''conflict'') \<and>
   (fst (getSecret (crt_namespace crtWeb) (crt_secretName crtWeb) worldConflict) = Inl (ApiError ''conflict'') \<or>
    (\<exists>secret w1 secret'.
       getSecret (crt_namespace crtWeb) (crt_secretName crtWeb) worldConflict = (Inr secret, w1) \<and>
       setIssuerNameAnnotation secret = Inr secret' \<and>
       fst (updateSecret secret' w1) = Some (ApiError ''conflict'')))"
proof -
  note r = annotation_write_never_faults [where cert = crtWeb and w = worldConflict
      and e = "ApiError ''conflict''"]
  note r2 = r [THEN conjunct2, THEN conjunct1, THEN mp, OF annotate_conflict]
  show ?thesis
    by (rule conjI [OF annotation_plain conjI [OF annotate_conflict r2]])
qed

subsection \<open>Waiting for the new request\<close>

lemma elapse_trace: "elapse d (w\<lparr>trace := t\<rparr>) = (elapse d w)\<lparr>trace := t\<rparr>"
  by (simp add: elapse_def)

lemma elapse_funpow_trace: "(elapse d ^^ j) (w\<lparr>trace := t\<rparr>) = ((elapse d ^^ j) w)\<lparr>trace := t\<rparr>"
  by (induction j) (simp_all add: elapse_trace)

lemma elapse_keeps: "faults (elapse d w) = faults w" "trace (elapse d w) = trace w"
  by (simp_all add: elapse_def)

lemma elapse_funpow_keeps:
  "faults ((elapse d ^^ j) w) = faults w" "trace ((elapse d ^^ j) w) = trace w"
  by (induction j) (simp_all add: elapse_keeps)

lemma sleep_elapse: "sleep d w = (elapse d w)\<lparr>trace := trace w @ [Sleep d]\<rparr>"
  by (simp add: sleep_def elapse_trace)

lemma ownedVisible_trace: "ownedVisible cert (w\<lparr>trace := t\<rparr>) = ownedVisible cert w"
  by (simp add: ownedVisible_def)

lemma requestExists_no_faults:
  "faults w = [] \<Longrightarrow>
     requestExists cert w =
       (Inr (ownedVisible cert w), w\<lparr>trace := trace w @ [ListCertificateRequests (crt_namespace cert)]\<rparr>)"
  by (simp add: requestExists_def listCertificateRequests_def apiCall_def ownedVisible_def)

lemma poll_step:
  assumes "faults w = []"
  shows "requestExists cert (sleep d w) =
     (Inr (ownedVisible cert (elapse d w)),
      (elapse d w)\<lparr>trace := trace w @ [Sleep d, ListCertificateRequests (crt_namespace cert)]\<rparr>)"
proof -
  have "faults (sleep d w) = []"
    using assms by (simp add: sleep_elapse elapse_keeps)
  from requestExists_no_faults [OF this, of cert] show ?thesis
    by (simp add: sleep_elapse ownedVisible_trace)
qed

lemma pollLoop_done:
  "faults w = [] \<Longrightarrow> 1 \<le> k \<Longrightarrow> k \<le> n \<Longrightarrow> ownedVisible cert ((elapse d ^^ k) w) \<Longrightarrow>
   (\<forall>j. 1 \<le> j \<and> j < k \<longrightarrow> \<not> ownedVisible cert ((elapse d ^^ j) w)) \<Longrightarrow>
   pollLoop n d (requestExists cert) w =
     (None, ((elapse d ^^ k) w)\<lparr>trace := trace w @
        concat (replicate k [Sleep d, ListCertificateRequests (crt_namespace cert)])\<rparr>)"
proof (induction n arbitrary: w k)
  case 0
  then show ?case by simp
next
  case (Suc n)
  let ?w2 = "(elapse d w)\<lparr>trace := trace w @ [Sleep d, ListCertificateRequests (crt_namespace cert)]\<rparr>"
  note step = poll_step [OF Suc.prems(1), of cert d]
  show ?case
  proof (cases "k = 1")
    case True
    then show ?thesis
      using Suc.prems step by simp
  next
    case False
    then obtain k' where k': "k = Suc k'" "1 \<le> k'"
      using Suc.prems(2) by (cases k) auto
    have nv: "\<not> ownedVisible cert (elapse d w)"
      using Suc.prems(5) [rule_format, of 1] k' by simp
    have f2: "faults ?w2 = []"
      using Suc.prems(1) by (simp add: elapse_keeps)
    have it: "(elapse d ^^ j) ?w2 =
        ((elapse d ^^ Suc j) w)\<lparr>trace := trace w @ [Sleep d, ListCertificateRequests (crt_namespace cert)]\<rparr>" for j
      by (simp add: elapse_funpow_trace funpow_swap1)
    have v: "ownedVisible cert ((elapse d ^^ k') ?w2)"
      using Suc.prems(4) k' by (simp only: it ownedVisible_trace)
    have nvs: "\<forall>j. 1 \<le> j \<and> j < k' \<longrightarrow> \<not> ownedVisible cert ((elapse d ^^ j) ?w2)"
    proof (intro allI impI)
      fix j assume "1 \<le> j \<and> j < k'"
      then have "1 \<le> Suc j \<and> Suc j < k" using k' by simp
      from Suc.prems(5) [rule_format, OF this] show "\<not> ownedVisible cert ((elapse d ^^ j) ?w2)"
        by (simp only: it ownedVisible_trace not_False_eq_True)
    qed
    have le: "k' \<le> n" using Suc.prems(3) k' by simp
    have "pollLoop (Suc n) d (requestExists cert) w = pollLoop n d (requestExists cert) ?w2"
      using step nv by simp
    also have "\<dots> = (None, ((elapse d ^^ k') ?w2)\<lparr>trace := trace ?w2 @
        concat (replicate k' [Sleep d, ListCertificateRequests (crt_namespace cert)])\<rparr>)"
      by (rule Suc.IH [OF f2 k'(2) le v nvs])
    also have "\<dots> = (None, ((elapse d ^^ k) w)\<lparr>trace := trace w @
        concat (replicate k [Sleep d, ListCertificateRequests (crt_namespace cert)])\<rparr>)"
      by (simp only: it k') simp
    finally show ?thesis .
  qed
qed

lemma pollLoop_timeout:
  "faults w = [] \<Longrightarrow>
   (\<forall>j. 1 \<le> j \<and> j \<le> n \<longrightarrow> \<not> ownedVisible cert ((elapse d ^^ j) w)) \<Longrightarrow>
   pollLoop n d (requestExists cert) w =
     (Some ErrWaitTimeout, ((elapse d ^^ n) w)\<lparr>trace := trace w @
        concat (replicate n [Sleep d, ListCertificateRequests (crt_namespace cert)])\<rparr>)"
proof (induction n arbitrary: w)
  case 0
  then show ?case by simp
next
  case (Suc n)
  let ?w2 = "(elapse d w)\<lparr>trace := trace w @ [Sleep d, ListCertificateRequests (crt_namespace cert)]\<rparr>"
  note step = poll_step [OF Suc.prems(1), of cert d]
  have nv: "\<not> ownedVisible cert (elapse d w)"
    using Suc.prems(2) [rule_format, of 1] by simp
  have f2: "faults ?w2 = []"
    using Suc.prems(1) by (simp add: elapse_keeps)
  have it: "(elapse d ^^ j) ?w2 =
      ((elapse d ^^ Suc j) w)\<lparr>trace := trace w @ [Sleep d, ListCertificateRequests (crt_namespace cert)]\<rparr>" for j
    by (simp add: elapse_funpow_trace funpow_swap1)
  have nvs: "\<forall>j. 1 \<le> j \<and> j \<le> n \<longrightarrow> \<not> ownedVisible cert ((elapse d ^^ j) ?w2)"
  proof (intro allI impI)
    fix j assume "1 \<le> j \<and> j \<le> n"
    then have "1 \<le> Suc j \<and> Suc j \<le> Suc n" by simp
    from Suc.prems(2) [rule_format, OF this] show "\<not> ownedVisible cert ((elapse d ^^ j) ?w2)"
      by (simp only: it ownedVisible_trace not_False_eq_True)
  qed
  have "pollLoop (Suc n) d (requestExists cert) w = pollLoop n d (requestExists cert) ?w2"
    using step nv by simp
  also have "\<dots> = (Some ErrWaitTimeout, ((elapse d ^^ n) ?w2)\<lparr>trace := trace ?w2 @
      concat (replicate n [Sleep d, ListCertificateRequests (crt_namespace cert)])\<rparr>)"
    by (rule Suc.IH [OF f2 nvs])
  also have "\<dots> = (Some ErrWaitTimeout, ((elapse d ^^ Suc n) w)\<lparr>trace := trace w @
      concat (replicate (Suc n) [Sleep d, ListCertificateRequests (crt_namespace cert)])\<rparr>)"
    by (simp only: it) simp
  finally show ?case .
qed

lemma arrives_before:
  "j < 60 \<Longrightarrow> (elapse 1 ^^ j) worldArrives = worldArrives\<lparr>clock := j\<rparr>"
proof (induction j)
  case 0
  then show ?case by (simp add: worldArrives_def)
next
  case (Suc j)
  then show ?case by (simp add: elapse_def worldArrives_def)
qed

lemma arrives_at:
  "(elapse 1 ^^ 60) worldArrives = worldArrives\<lparr>clock := 60, requests := [reqNew], pending := []\<rparr>"
proof -
  have s60: "(60::nat) = Suc 59"
    by simp
  have e59: "(elapse 1 ^^ 59) worldArrives = worldArrives\<lparr>clock := 59\<rparr>"
    by (rule arrives_before) simp
  have "(elapse 1 ^^ 60) worldArrives = elapse 1 ((elapse 1 ^^ 59) worldArrives)"
    by (simp only: s60 funpow.simps o_apply)
  also have "\<dots> = elapse 1 (worldArrives\<lparr>clock := 59\<rparr>)"
    by (simp only: e59)
  also have "\<dots> = worldArrives\<lparr>clock := 60, requests := [reqNew], pending := []\<rparr>"
    by (simp add: elapse_def worldArrives_def)
  finally show ?thesis .
qed

lemma late_before:
  "j \<le> 60 \<Longrightarrow> (elapse 1 ^^ j) worldLate = worldLate\<lparr>clock := j\<rparr>"
proof (induction j)
  case 0
  then show ?case by (simp add: worldLate_def)
next
  case (Suc j)
  then show ?case by (simp add: elapse_def worldLate_def)
qed

text \<open>
  C4. From a world in which the API calls succeed, the waiting phase sleeps one second
  and lists the requests of the namespace, again and again: it returns success at the
  first of the seconds 1 to 60 at which a request controlled by the certificate is
  listed, after exactly that many rounds, and it returns the timeout error after 60
  rounds when none is listed at any of the seconds 1 to 60. \<^verbatim>\<open>renewCertificate\<close>
  returns what the waiting phase returns.
\<close>

theorem awaitRequest_polls:
  assumes "faults w = []"
  shows "(1 \<le> k \<and> k \<le> 60 \<and> ownedVisible cert ((elapse 1 ^^ k) w) \<and>
        (\<forall>j. 1 \<le> j \<and> j < k \<longrightarrow> \<not> ownedVisible cert ((elapse 1 ^^ j) w)) \<longrightarrow>
      awaitRequest cert w =
        (None, ((elapse 1 ^^ k) w)\<lparr>trace := trace w @
           concat (replicate k [Sleep 1, ListCertificateRequests (crt_namespace cert)])\<rparr>)) \<and>
     ((\<forall>j. 1 \<le> j \<and> j \<le> 60 \<longrightarrow> \<not> ownedVisible cert ((elapse 1 ^^ j) w)) \<longrightarrow>
      awaitRequest cert w =
        (Some ErrWaitTimeout, ((elapse 1 ^^ 60) w)\<lparr>trace := trace w @
           concat (replicate 60 [Sleep 1, ListCertificateRequests (crt_namespace cert)])\<rparr>)) \<and>
     (listCertificateRequests (crt_namespace cert) w0 = (Inr items, w1) \<and>
        cancelStale cert items w1 = (Completed, w2) \<and> annotate cert w2 = (None, w) \<longrightarrow>
      renewCertificate cert w0 = awaitRequest cert w)"
proof -
  have p: "awaitRequest cert w = pollLoop 60 1 (requestExists cert) w"
    by (simp add: awaitRequest_def poll_def second_def minute_def)
  have a: "1 \<le> k \<and> k \<le> 60 \<and> ownedVisible cert ((elapse 1 ^^ k) w) \<and>
        (\<forall>j. 1 \<le> j \<and> j < k \<longrightarrow> \<not> ownedVisible cert ((elapse 1 ^^ j) w)) \<longrightarrow>
      awaitRequest cert w =
        (None, ((elapse 1 ^^ k) w)\<lparr>trace := trace w @
           concat (replicate k [Sleep 1, ListCertificateRequests (crt_namespace cert)])\<rparr>)"
    unfolding p using pollLoop_done [OF assms, of k 60 cert 1] by (intro impI) (elim conjE, simp)
  have b: "(\<forall>j. 1 \<le> j \<and> j \<le> 60 \<longrightarrow> \<not> ownedVisible cert ((elapse 1 ^^ j) w)) \<longrightarrow>
      awaitRequest cert w =
        (Some ErrWaitTimeout, ((elapse 1 ^^ 60) w)\<lparr>trace := trace w @
           concat (replicate 60 [Sleep 1, ListCertificateRequests (crt_namespace cert)])\<rparr>)"
    unfolding p using pollLoop_timeout [OF assms, of 60 cert 1] by (intro impI)
  have c: "listCertificateRequests (crt_namespace cert) w0 = (Inr items, w1) \<and>
        cancelStale cert items w1 = (Completed, w2) \<and> annotate cert w2 = (None, w) \<longrightarrow>
      renewCertificate cert w0 = awaitRequest cert w"
    by (simp add: renewCertificate_def)
  show ?thesis
    by (rule conjI [OF a conjI [OF b c]])
qed

theorem awaitRequest_polls_witness:
  "faults worldArrives = [] \<and>
   \<not> ownedVisible crtWeb ((elapse 1 ^^ 59) worldArrives) \<and>
   ownedVisible crtWeb ((elapse 1 ^^ 60) worldArrives) \<and>
   awaitRequest crtWeb worldArrives =
     (None, ((elapse 1 ^^ 60) worldArrives)\<lparr>trace := trace worldArrives @
        concat (replicate 60 [Sleep 1, ListCertificateRequests (crt_namespace crtWeb)])\<rparr>) \<and>
   faults worldLate = [] \<and>
   \<not> ownedVisible crtWeb ((elapse 1 ^^ 60) worldLate) \<and>
   awaitRequest crtWeb worldLate =
     (Some ErrWaitTimeout, ((elapse 1 ^^ 60) worldLate)\<lparr>trace := trace worldLate @
        concat (replicate 60 [Sleep 1, ListCertificateRequests (crt_namespace crtWeb)])\<rparr>)"
proof -
  have f1: "faults worldArrives = []"
    by (simp add: worldArrives_def)
  have f2: "faults worldLate = []"
    by (simp add: worldLate_def)
  have e59: "(elapse 1 ^^ 59) worldArrives = worldArrives\<lparr>clock := 59\<rparr>"
    by (rule arrives_before) simp
  have n59: "\<not> ownedVisible crtWeb ((elapse 1 ^^ 59) worldArrives)"
    by (simp only: e59) (simp add: ownedVisible_def worldArrives_def)
  have v60: "ownedVisible crtWeb ((elapse 1 ^^ 60) worldArrives)"
    by (simp only: arrives_at) (simp add: ownedVisible_def isControlledBy_def fields)
  have nb: "\<forall>j. 1 \<le> j \<and> j < 60 \<longrightarrow> \<not> ownedVisible crtWeb ((elapse 1 ^^ j) worldArrives)"
  proof (intro allI impI)
    fix j :: nat assume "1 \<le> j \<and> j < 60"
    then have "j < 60"
      by simp
    then have "(elapse 1 ^^ j) worldArrives = worldArrives\<lparr>clock := j\<rparr>"
      by (rule arrives_before)
    then show "\<not> ownedVisible crtWeb ((elapse 1 ^^ j) worldArrives)"
      by (simp add: ownedVisible_def worldArrives_def)
  qed
  have nl: "\<forall>j. 1 \<le> j \<and> j \<le> 60 \<longrightarrow> \<not> ownedVisible crtWeb ((elapse 1 ^^ j) worldLate)"
  proof (intro allI impI)
    fix j :: nat assume "1 \<le> j \<and> j \<le> 60"
    then have "j \<le> 60"
      by simp
    then have "(elapse 1 ^^ j) worldLate = worldLate\<lparr>clock := j\<rparr>"
      by (rule late_before)
    then show "\<not> ownedVisible crtWeb ((elapse 1 ^^ j) worldLate)"
      by (simp add: ownedVisible_def worldLate_def)
  qed
  have n60: "\<not> ownedVisible crtWeb ((elapse 1 ^^ 60) worldLate)"
    using nl [rule_format, of 60] by simp
  have h: "1 \<le> (60::nat) \<and> (60::nat) \<le> 60 \<and> ownedVisible crtWeb ((elapse 1 ^^ 60) worldArrives) \<and>
      (\<forall>j. 1 \<le> j \<and> j < 60 \<longrightarrow> \<not> ownedVisible crtWeb ((elapse 1 ^^ j) worldArrives))"
    using v60 nb by simp
  note r1 = awaitRequest_polls [OF f1, where k = 60 and cert = crtWeb, THEN conjunct1, THEN mp, OF h]
  note r2 = awaitRequest_polls [OF f2, where cert = crtWeb, THEN conjunct2, THEN conjunct1, THEN mp, OF nl]
  show ?thesis
    by (rule conjI [OF f1 conjI [OF n59 conjI [OF v60 conjI [OF r1 conjI [OF f2 conjI [OF n60 r2]]]]]])
qed

section \<open>run\<close>

lemma listCertificates_cases:
  "listCertificates w =
     (case faults w of
        [] \<Rightarrow> (Inr (certificates w), w\<lparr>trace := trace w @ [ListCertificates]\<rparr>)
      | None # fs \<Rightarrow> (Inr (certificates w), w\<lparr>faults := fs, trace := trace w @ [ListCertificates]\<rparr>)
      | Some msg # fs \<Rightarrow> (Inl (ApiError msg), w\<lparr>faults := fs, trace := trace w @ [ListCertificates]\<rparr>))"
  by (simp add: listCertificates_def apiCall_def split: list.splits option.splits)

lemma listSecrets_cases:
  "listSecrets w =
     (case faults w of
        [] \<Rightarrow> (Inr (secrets w), w\<lparr>trace := trace w @ [ListSecrets]\<rparr>)
      | None # fs \<Rightarrow> (Inr (secrets w), w\<lparr>faults := fs, trace := trace w @ [ListSecrets]\<rparr>)
      | Some msg # fs \<Rightarrow> (Inl (ApiError msg), w\<lparr>faults := fs, trace := trace w @ [ListSecrets]\<rparr>))"
  by (simp add: listSecrets_def apiCall_def split: list.splits option.splits)

text \<open>
  C6. When the listing of the certificates fails, the run returns that error, wrapped,
  and the only thing it has done is that listing. When the listing of the secrets fails,
  the run returns that error, wrapped, after the two listings and the printed number of
  certificates found. In both cases no analysis result is printed and the certificates,
  secrets and requests of the cluster are as they were.
\<close>

theorem run_fetch_error:
  "(fst (listCertificates w) = Inl e \<longrightarrow>
      run issuerName renew decode rangeOrder w =
        (Some (Wrapped ''error listing Certificate resources'' e),
         w\<lparr>faults := tl (faults w), trace := trace w @ [ListCertificates]\<rparr>)) \<and>
   (listCertificates w = (Inr certs, w1) \<and>
      fst (listSecrets (printf (PrintFound (length certs)) w1)) = Inl e \<longrightarrow>
      run issuerName renew decode rangeOrder w =
        (Some (Wrapped ''error listing Secret resources'' e),
         w\<lparr>faults := drop 2 (faults w),
           trace := trace w @ [ListCertificates, PrintFound (length certs), ListSecrets]\<rparr>))"
proof -
  have a: "fst (listCertificates w) = Inl e \<longrightarrow>
      run issuerName renew decode rangeOrder w =
        (Some (Wrapped ''error listing Certificate resources'' e),
         w\<lparr>faults := tl (faults w), trace := trace w @ [ListCertificates]\<rparr>)"
    by (auto simp: run_def listCertificates_cases split: list.splits option.splits)
  have b: "listCertificates w = (Inr certs, w1) \<and>
      fst (listSecrets (printf (PrintFound (length certs)) w1)) = Inl e \<longrightarrow>
      run issuerName renew decode rangeOrder w =
        (Some (Wrapped ''error listing Secret resources'' e),
         w\<lparr>faults := drop 2 (faults w),
           trace := trace w @ [ListCertificates, PrintFound (length certs), ListSecrets]\<rparr>)"
    by (auto simp: run_def listCertificates_cases listSecrets_cases printf_def
        split: list.splits option.splits)
  show ?thesis
    by (rule conjI [OF a b])
qed

lemma fetch_fails:
  "fst (listCertificates worldFetchFails) = Inl (ApiError ''unavailable'')"
  by (simp add: listCertificates_cases worldFetchFails_def)

lemma fetch_conflict:
  "listCertificates worldConflict =
     (Inr [crtWeb], worldConflict\<lparr>faults := [Some ''conflict''], trace := [ListCertificates]\<rparr>)"
  by (simp add: listCertificates_cases worldConflict_def)

lemma fetch_conflict_secrets:
  "fst (listSecrets (printf (PrintFound (length [crtWeb]))
     (worldConflict\<lparr>faults := [Some ''conflict''], trace := [ListCertificates]\<rparr>))) =
     Inl (ApiError ''conflict'')"
  by (simp add: listSecrets_cases printf_def)

theorem run_fetch_error_witness:
  "fst (listCertificates worldFetchFails) = Inl (ApiError ''unavailable'') \<and>
   run ''letsencrypt-prod'' True exampleDecoder id worldFetchFails =
     (Some (Wrapped ''error listing Certificate resources'' (ApiError ''unavailable'')),
      worldFetchFails\<lparr>faults := tl (faults worldFetchFails),
        trace := trace worldFetchFails @ [ListCertificates]\<rparr>) \<and>
   listCertificates worldConflict =
     (Inr [crtWeb], worldConflict\<lparr>faults := [Some ''conflict''], trace := [ListCertificates]\<rparr>) \<and>
   run ''letsencrypt-prod'' True exampleDecoder id worldConflict =
     (Some (Wrapped ''error listing Secret resources'' (ApiError ''conflict'')),
      worldConflict\<lparr>faults := drop 2 (faults worldConflict),
        trace := trace worldConflict @ [ListCertificates, PrintFound (length [crtWeb]), ListSecrets]\<rparr>)"
proof -
  note r1 = run_fetch_error [where w = worldFetchFails and e = "ApiError ''unavailable''"
      and issuerName = "''letsencrypt-prod''" and renew = True and decode = exampleDecoder
      and rangeOrder = id, THEN conjunct1, THEN mp, OF fetch_fails]
  note r2 = run_fetch_error [where w = worldConflict and e = "ApiError ''conflict''"
      and issuerName = "''letsencrypt-prod''" and renew = True and decode = exampleDecoder
      and rangeOrder = id, THEN conjunct2, THEN mp, OF conjI [OF fetch_conflict fetch_conflict_secrets]]
  show ?thesis
    by (rule conjI [OF fetch_fails conjI [OF r1 conjI [OF fetch_conflict r2]]])
qed

text \<open>
  C9. With the renew flag false the run changes nothing in the store: the certificates,
  secrets, requests and clock of the cluster are as they were, and what the run adds to
  the trace holds no deletion and no update. When both listings succeed it returns
  success after the two listings and the two printed lines, however many certificates are
  affected.
\<close>

theorem dry_run_changes_nothing:
  "certificates (snd (run issuerName False decode rangeOrder w)) = certificates w \<and>
   secrets (snd (run issuerName False decode rangeOrder w)) = secrets w \<and>
   requests (snd (run issuerName False decode rangeOrder w)) = requests w \<and>
   clock (snd (run issuerName False decode rangeOrder w)) = clock w \<and>
   (\<exists>out. trace (snd (run issuerName False decode rangeOrder w)) = trace w @ out \<and>
      list_all (\<lambda>a. \<not> mutating a) out) \<and>
   (listCertificates w = (Inr certs, w1) \<and>
      listSecrets (printf (PrintFound (length certs)) w1) = (Inr secretItems, w2) \<longrightarrow>
      run issuerName False decode rangeOrder w =
        (None, w\<lparr>faults := drop 2 (faults w),
           trace := trace w @ [ListCertificates, PrintFound (length certs), ListSecrets,
             PrintResults (fst (analyse issuerName decode secretItems certs))
               (length (snd (analyse issuerName decode secretItems certs)))]\<rparr>))"
proof -
  have a: "certificates (snd (run issuerName False decode rangeOrder w)) = certificates w"
    by (auto simp: run_def listCertificates_cases listSecrets_cases printf_def Let_def
        split: list.splits option.splits prod.splits)
  have b: "secrets (snd (run issuerName False decode rangeOrder w)) = secrets w"
    by (auto simp: run_def listCertificates_cases listSecrets_cases printf_def Let_def
        split: list.splits option.splits prod.splits)
  have c: "requests (snd (run issuerName False decode rangeOrder w)) = requests w"
    by (auto simp: run_def listCertificates_cases listSecrets_cases printf_def Let_def
        split: list.splits option.splits prod.splits)
  have d: "clock (snd (run issuerName False decode rangeOrder w)) = clock w"
    by (auto simp: run_def listCertificates_cases listSecrets_cases printf_def Let_def
        split: list.splits option.splits prod.splits)
  have e: "\<exists>out. trace (snd (run issuerName False decode rangeOrder w)) = trace w @ out \<and>
      list_all (\<lambda>a. \<not> mutating a) out"
    by (auto simp: run_def listCertificates_cases listSecrets_cases printf_def Let_def
        split: list.splits option.splits prod.splits)
  have f: "listCertificates w = (Inr certs, w1) \<and>
      listSecrets (printf (PrintFound (length certs)) w1) = (Inr secretItems, w2) \<longrightarrow>
      run issuerName False decode rangeOrder w =
        (None, w\<lparr>faults := drop 2 (faults w),
           trace := trace w @ [ListCertificates, PrintFound (length certs), ListSecrets,
             PrintResults (fst (analyse issuerName decode secretItems certs))
               (length (snd (analyse issuerName decode secretItems certs)))]\<rparr>)"
    by (auto simp: run_def listCertificates_cases listSecrets_cases printf_def Let_def
        split: list.splits option.splits prod.splits)
  show ?thesis
    by (rule conjI [OF a conjI [OF b conjI [OF c conjI [OF d conjI [OF e f]]]]])
qed

lemma fetch_pending:
  "listCertificates worldPending = (Inr [crtWeb], worldPending\<lparr>trace := [ListCertificates]\<rparr>)"
  by (simp add: listCertificates_cases worldPending_def)

lemma fetch_pending_secrets:
  "listSecrets (printf (PrintFound (length [crtWeb])) (worldPending\<lparr>trace := [ListCertificates]\<rparr>)) =
     (Inr [secretPlain],
      worldPending\<lparr>trace := [ListCertificates, PrintFound (length [crtWeb]), ListSecrets]\<rparr>)"
  by (simp add: listSecrets_cases printf_def worldPending_def)

theorem dry_run_changes_nothing_witness:
  "listCertificates worldPending = (Inr [crtWeb], worldPending\<lparr>trace := [ListCertificates]\<rparr>) \<and>
   listSecrets (printf (PrintFound (length [crtWeb])) (worldPending\<lparr>trace := [ListCertificates]\<rparr>)) =
     (Inr [secretPlain],
      worldPending\<lparr>trace := [ListCertificates, PrintFound (length [crtWeb]), ListSecrets]\<rparr>) \<and>
   analyse [] exampleDecoder [secretPlain] [crtWeb] = (0, [(''7'', crtWeb)]) \<and>
   run [] False exampleDecoder id worldPending =
     (None, worldPending\<lparr>faults := drop 2 (faults worldPending),
        trace := trace worldPending @ [ListCertificates, PrintFound (length [crtWeb]), ListSecrets,
          PrintResults (fst (analyse [] exampleDecoder [secretPlain] [crtWeb]))
            (length (snd (analyse [] exampleDecoder [secretPlain] [crtWeb])))]\<rparr>)"
proof -
  have an: "analyse [] exampleDecoder [secretPlain] [crtWeb] = (0, [(''7'', crtWeb)])"
    by (simp add: example_simps)
  note r = dry_run_changes_nothing [where w = worldPending and issuerName = "[]"
      and decode = exampleDecoder and rangeOrder = id,
      THEN conjunct2, THEN conjunct2, THEN conjunct2, THEN conjunct2, THEN conjunct2, THEN mp,
      OF conjI [OF fetch_pending fetch_pending_secrets]]
  show ?thesis
    by (rule conjI [OF fetch_pending conjI [OF fetch_pending_secrets conjI [OF an r]]])
qed

subsection \<open>The first failure ends the run\<close>

lemma run_renews:
  assumes "listCertificates w = (Inr certs, w1)"
    and "listSecrets (printf (PrintFound (length certs)) w1) = (Inr secretItems, w2)"
    and "analyse issuerName decode secretItems certs = (skipped, affected)"
    and "affected \<noteq> []"
  shows "run issuerName True decode rangeOrder w =
     renewAll (map snd (rangeOrder affected))
       (sleep (2 * second) (printf (PrintResults skipped (length affected)) w2))"
  using assms by (simp add: run_def)

lemma renewAll_stops:
  assumes "fst (renewAll before u) = None"
    and "renewCertificate cert (snd (renewAll before u)) = (Some e, u')"
  shows "renewAll (before @ cert # remaining) u = (Some e, u')"
  using assms by (simp add: renewAll_append)

text \<open>
  C5. In any sequence of certificates, when the renewals of the certificates before one
  succeed and the renewal of that one fails, \<^verbatim>\<open>renewAll\<close> returns that error with the
  world as that renewal left it: nothing is done for the certificates after it, no API
  call and no sleep, since the trace is part of the world. A run with the renew flag
  set, whose two listings succeed and whose analysis finds a certificate, returns what
  \<^verbatim>\<open>renewAll\<close> returns on the affected certificates in the order of the range: the
  error of the first renewal that fails is the result of the whole run, and the world of
  the run is the one that renewal left.
\<close>

theorem run_aborts_at_first_failure:
  "(fst (renewAll before u) = None \<and>
      renewCertificate cert (snd (renewAll before u)) = (Some e, u') \<longrightarrow>
      renewAll (before @ cert # remaining) u = (Some e, u')) \<and>
   (listCertificates w = (Inr certs, w1) \<and>
      listSecrets (printf (PrintFound (length certs)) w1) = (Inr secretItems, w2) \<and>
      analyse issuerName decode secretItems certs = (skipped, affected) \<and>
      affected \<noteq> [] \<longrightarrow>
      run issuerName True decode rangeOrder w =
        renewAll (map snd (rangeOrder affected))
          (sleep (2 * second) (printf (PrintResults skipped (length affected)) w2))) \<and>
   (listCertificates w = (Inr certs, w1) \<and>
      listSecrets (printf (PrintFound (length certs)) w1) = (Inr secretItems, w2) \<and>
      analyse issuerName decode secretItems certs = (skipped, affected) \<and>
      affected \<noteq> [] \<and>
      map snd (rangeOrder affected) = before @ cert # remaining \<and>
      fst (renewAll before
             (sleep (2 * second) (printf (PrintResults skipped (length affected)) w2))) = None \<and>
      renewCertificate cert
        (snd (renewAll before
                (sleep (2 * second) (printf (PrintResults skipped (length affected)) w2)))) =
        (Some e, w') \<longrightarrow>
      run issuerName True decode rangeOrder w = (Some e, w'))"
proof -
  have a: "fst (renewAll before u) = None \<and>
      renewCertificate cert (snd (renewAll before u)) = (Some e, u') \<longrightarrow>
      renewAll (before @ cert # remaining) u = (Some e, u')"
    using renewAll_stops [of before u cert e u' remaining] by (intro impI) (elim conjE)
  have b: "listCertificates w = (Inr certs, w1) \<and>
      listSecrets (printf (PrintFound (length certs)) w1) = (Inr secretItems, w2) \<and>
      analyse issuerName decode secretItems certs = (skipped, affected) \<and>
      affected \<noteq> [] \<longrightarrow>
      run issuerName True decode rangeOrder w =
        renewAll (map snd (rangeOrder affected))
          (sleep (2 * second) (printf (PrintResults skipped (length affected)) w2))"
    using run_renews [of w certs w1 secretItems w2 issuerName decode skipped affected rangeOrder]
    by (intro impI) (elim conjE)
  have c: "listCertificates w = (Inr certs, w1) \<and>
      listSecrets (printf (PrintFound (length certs)) w1) = (Inr secretItems, w2) \<and>
      analyse issuerName decode secretItems certs = (skipped, affected) \<and>
      affected \<noteq> [] \<and>
      map snd (rangeOrder affected) = before @ cert # remaining \<and>
      fst (renewAll before
             (sleep (2 * second) (printf (PrintResults skipped (length affected)) w2))) = None \<and>
      renewCertificate cert
        (snd (renewAll before
                (sleep (2 * second) (printf (PrintResults skipped (length affected)) w2)))) =
        (Some e, w') \<longrightarrow>
      run issuerName True decode rangeOrder w = (Some e, w')"
  proof (intro impI, elim conjE)
    assume h: "listCertificates w = (Inr certs, w1)"
      "listSecrets (printf (PrintFound (length certs)) w1) = (Inr secretItems, w2)"
      "analyse issuerName decode secretItems certs = (skipped, affected)"
      "affected \<noteq> []"
      and ord: "map snd (rangeOrder affected) = before @ cert # remaining"
      and ok: "fst (renewAll before
             (sleep (2 * second) (printf (PrintResults skipped (length affected)) w2))) = None"
      and fail: "renewCertificate cert
        (snd (renewAll before
                (sleep (2 * second) (printf (PrintResults skipped (length affected)) w2)))) =
        (Some e, w')"
    have "run issuerName True decode rangeOrder w =
        renewAll (before @ cert # remaining)
          (sleep (2 * second) (printf (PrintResults skipped (length affected)) w2))"
      using run_renews [OF h, of rangeOrder] by (simp only: ord)
    also have "\<dots> = (Some e, w')"
      by (rule renewAll_stops [OF ok fail])
    finally show "run issuerName True decode rangeOrder w = (Some e, w')" .
  qed
  show ?thesis
    by (rule conjI [OF a conjI [OF b c]])
qed


lemma bigIntString_9: "bigIntString 9 = ''9''"
  by (simp add: bigIntString_def natString.simps digitChar_def)

lemma secretsMap_three:
  "makeSecretsMap [secretPlain, secretShop, secretMail] =
     [''prod/web-tls'' \<mapsto> secretPlain, ''prod/shop-tls'' \<mapsto> secretShop,
      ''prod/mail-tls'' \<mapsto> secretMail]"
  by (simp add: makeSecretsMap_def secretPlain_def secretShop_def secretMail_def)

lemma correlate_three_web:
  "correlate exampleDecoder (makeSecretsMap [secretPlain, secretShop, secretMail]) crtWeb =
     Inr (secretPlain, \<lparr>serialNumber = 7\<rparr>)"
  by (simp add: secretsMap_three correlate_def crtWeb_def)
    (simp add: secretPlain_def mapIndex_def TLSCertKey_def exampleDecoder_def)

lemma correlate_three_shop:
  "correlate exampleDecoder (makeSecretsMap [secretPlain, secretShop, secretMail]) crtShop =
     Inr (secretShop, \<lparr>serialNumber = 8\<rparr>)"
  by (simp add: secretsMap_three correlate_def crtShop_def)
    (simp add: secretShop_def mapIndex_def TLSCertKey_def exampleDecoder_def)

lemma correlate_three_mail:
  "correlate exampleDecoder (makeSecretsMap [secretPlain, secretShop, secretMail]) crtMail =
     Inr (secretMail, \<lparr>serialNumber = 9\<rparr>)"
  by (simp add: secretsMap_three correlate_def crtMail_def)
    (simp add: secretMail_def mapIndex_def TLSCertKey_def exampleDecoder_def)

lemma analyse_three:
  "analyse [] exampleDecoder [secretPlain, secretShop, secretMail] [crtWeb, crtShop, crtMail] =
     (0, [(''7'', crtWeb), (''8'', crtShop), (''9'', crtMail)])"
  by (simp add: analyse_def checkCertificate_def correlate_three_web correlate_three_shop
      correlate_three_mail bigIntString_7 bigIntString_8 bigIntString_9)

lemma fetch_three:
  "listCertificates worldRenewFails =
     (Inr [crtWeb, crtShop, crtMail],
      (worldRenewFails\<lparr>faults := [None, None, Some ''denied''], trace := [ListCertificates]\<rparr>))"
  by (simp add: listCertificates_cases worldRenewFails_def)

lemma fetch_three_secrets:
  "listSecrets (printf (PrintFound (length [crtWeb, crtShop, crtMail]))
      (worldRenewFails\<lparr>faults := [None, None, Some ''denied''], trace := [ListCertificates]\<rparr>)) =
     (Inr [secretPlain, secretShop, secretMail],
      (worldRenewFails\<lparr>faults := [None, Some ''denied''],
        trace := [ListCertificates, PrintFound (length [crtWeb, crtShop, crtMail]), ListSecrets]\<rparr>))"
  by (simp add: listSecrets_cases printf_def worldRenewFails_def)

lemma renew_in_progress_first:
  "faults u = None # fs \<Longrightarrow> requests u = [reqNew] \<Longrightarrow>
     renewCertificate crtWeb u =
       (None, u\<lparr>faults := fs, trace := trace u @ [ListCertificateRequests ''prod'']\<rparr>)"
  by (simp add: renewCertificate_def listCertificateRequests_def apiCall_def isControlledBy_def fields)

lemma renew_listing_fails:
  "faults u = Some m # fs \<Longrightarrow>
     renewCertificate c u =
       (Some (ApiError m),
        u\<lparr>faults := fs, trace := trace u @ [ListCertificateRequests (crt_namespace c)]\<rparr>)"
  by (simp add: renewCertificate_def listCertificateRequests_def apiCall_def)

lemma before_renewals:
  "faults (sleep (2 * second) (printf (PrintResults 0 (length [(''7'', crtWeb), (''8'', crtShop), (''9'', crtMail)]))
        (worldRenewFails\<lparr>faults := [None, Some ''denied''],
        trace := [ListCertificates, PrintFound (length [crtWeb, crtShop, crtMail]), ListSecrets]\<rparr>))) = [None, Some ''denied''] \<and>
   requests (sleep (2 * second) (printf (PrintResults 0 (length [(''7'', crtWeb), (''8'', crtShop), (''9'', crtMail)]))
        (worldRenewFails\<lparr>faults := [None, Some ''denied''],
        trace := [ListCertificates, PrintFound (length [crtWeb, crtShop, crtMail]), ListSecrets]\<rparr>))) = [reqNew] \<and>
   trace (sleep (2 * second) (printf (PrintResults 0 (length [(''7'', crtWeb), (''8'', crtShop), (''9'', crtMail)]))
        (worldRenewFails\<lparr>faults := [None, Some ''denied''],
        trace := [ListCertificates, PrintFound (length [crtWeb, crtShop, crtMail]), ListSecrets]\<rparr>))) =
     [ListCertificates, PrintFound (length [crtWeb, crtShop, crtMail]), ListSecrets,
      PrintResults 0 (length [(''7'', crtWeb), (''8'', crtShop), (''9'', crtMail)]), Sleep (2 * second)]"
  by (simp add: sleep_def elapse_def printf_def worldRenewFails_def)

lemma first_renewal:
  "renewAll [crtWeb] (sleep (2 * second) (printf (PrintResults 0 (length [(''7'', crtWeb), (''8'', crtShop), (''9'', crtMail)]))
        (worldRenewFails\<lparr>faults := [None, Some ''denied''],
        trace := [ListCertificates, PrintFound (length [crtWeb, crtShop, crtMail]), ListSecrets]\<rparr>))) =
     (None, (sleep (2 * second) (printf (PrintResults 0 (length [(''7'', crtWeb), (''8'', crtShop), (''9'', crtMail)]))
        (worldRenewFails\<lparr>faults := [None, Some ''denied''],
        trace := [ListCertificates, PrintFound (length [crtWeb, crtShop, crtMail]), ListSecrets]\<rparr>)))\<lparr>faults := [Some ''denied''],
        trace := [ListCertificates, PrintFound (length [crtWeb, crtShop, crtMail]), ListSecrets,
          PrintResults 0 (length [(''7'', crtWeb), (''8'', crtShop), (''9'', crtMail)]), Sleep (2 * second),
          ListCertificateRequests ''prod'']\<rparr>)"
  using renew_in_progress_first [OF before_renewals [THEN conjunct1]
      before_renewals [THEN conjunct2, THEN conjunct1]]
    before_renewals [THEN conjunct2, THEN conjunct2]
  by simp

lemma second_renewal:
  "renewCertificate crtShop (snd (renewAll [crtWeb] (sleep (2 * second) (printf (PrintResults 0 (length [(''7'', crtWeb), (''8'', crtShop), (''9'', crtMail)]))
        (worldRenewFails\<lparr>faults := [None, Some ''denied''],
        trace := [ListCertificates, PrintFound (length [crtWeb, crtShop, crtMail]), ListSecrets]\<rparr>))))) =
     (Some (ApiError ''denied''),
      (sleep (2 * second) (printf (PrintResults 0 (length [(''7'', crtWeb), (''8'', crtShop), (''9'', crtMail)]))
        (worldRenewFails\<lparr>faults := [None, Some ''denied''],
        trace := [ListCertificates, PrintFound (length [crtWeb, crtShop, crtMail]), ListSecrets]\<rparr>)))\<lparr>faults := [],
        trace := [ListCertificates, PrintFound (length [crtWeb, crtShop, crtMail]), ListSecrets,
          PrintResults 0 (length [(''7'', crtWeb), (''8'', crtShop), (''9'', crtMail)]), Sleep (2 * second),
          ListCertificateRequests ''prod'', ListCertificateRequests ''prod'']\<rparr>)"
  by (simp only: first_renewal snd_conv)
    (simp add: renew_listing_fails [where m = "''denied''" and fs = "[]"] crtShop_def)

theorem run_aborts_at_first_failure_witness:
  "listCertificates worldRenewFails =
     (Inr [crtWeb, crtShop, crtMail],
      (worldRenewFails\<lparr>faults := [None, None, Some ''denied''], trace := [ListCertificates]\<rparr>)) \<and>
   listSecrets (printf (PrintFound (length [crtWeb, crtShop, crtMail]))
      (worldRenewFails\<lparr>faults := [None, None, Some ''denied''], trace := [ListCertificates]\<rparr>)) =
     (Inr [secretPlain, secretShop, secretMail],
      (worldRenewFails\<lparr>faults := [None, Some ''denied''],
        trace := [ListCertificates, PrintFound (length [crtWeb, crtShop, crtMail]), ListSecrets]\<rparr>)) \<and>
   analyse [] exampleDecoder [secretPlain, secretShop, secretMail] [crtWeb, crtShop, crtMail] =
     (0, [(''7'', crtWeb), (''8'', crtShop), (''9'', crtMail)]) \<and>
   [(''7'', crtWeb), (''8'', crtShop), (''9'', crtMail)] \<noteq> [] \<and>
   map snd (id [(''7'', crtWeb), (''8'', crtShop), (''9'', crtMail)]) = [crtWeb] @ crtShop # [crtMail] \<and>
   fst (renewAll [crtWeb] (sleep (2 * second) (printf (PrintResults 0 (length [(''7'', crtWeb), (''8'', crtShop), (''9'', crtMail)]))
        (worldRenewFails\<lparr>faults := [None, Some ''denied''],
        trace := [ListCertificates, PrintFound (length [crtWeb, crtShop, crtMail]), ListSecrets]\<rparr>)))) = None \<and>
   renewCertificate crtShop (snd (renewAll [crtWeb] (sleep (2 * second) (printf (PrintResults 0 (length [(''7'', crtWeb), (''8'', crtShop), (''9'', crtMail)]))
        (worldRenewFails\<lparr>faults := [None, Some ''denied''],
        trace := [ListCertificates, PrintFound (length [crtWeb, crtShop, crtMail]), ListSecrets]\<rparr>))))) =
     (Some (ApiError ''denied''),
      (sleep (2 * second) (printf (PrintResults 0 (length [(''7'', crtWeb), (''8'', crtShop), (''9'', crtMail)]))
        (worldRenewFails\<lparr>faults := [None, Some ''denied''],
        trace := [ListCertificates, PrintFound (length [crtWeb, crtShop, crtMail]), ListSecrets]\<rparr>)))\<lparr>faults := [],
        trace := [ListCertificates, PrintFound (length [crtWeb, crtShop, crtMail]), ListSecrets,
          PrintResults 0 (length [(''7'', crtWeb), (''8'', crtShop), (''9'', crtMail)]), Sleep (2 * second),
          ListCertificateRequests ''prod'', ListCertificateRequests ''prod'']\<rparr>) \<and>
   run [] True exampleDecoder id worldRenewFails =
     (Some (ApiError ''denied''),
      (sleep (2 * second) (printf (PrintResults 0 (length [(''7'', crtWeb), (''8'', crtShop), (''9'', crtMail)]))
        (worldRenewFails\<lparr>faults := [None, Some ''denied''],
        trace := [ListCertificates, PrintFound (length [crtWeb, crtShop, crtMail]), ListSecrets]\<rparr>)))\<lparr>faults := [],
        trace := [ListCertificates, PrintFound (length [crtWeb, crtShop, crtMail]), ListSecrets,
          PrintResults 0 (length [(''7'', crtWeb), (''8'', crtShop), (''9'', crtMail)]), Sleep (2 * second),
          ListCertificateRequests ''prod'', ListCertificateRequests ''prod'']\<rparr>)"
proof -
  have ne: "[(''7'', crtWeb), (''8'', crtShop), (''9'', crtMail)] \<noteq> []"
    by simp
  have ord: "map snd (id [(''7'', crtWeb), (''8'', crtShop), (''9'', crtMail)]) = [crtWeb] @ crtShop # [crtMail]"
    by simp
  have ok: "fst (renewAll [crtWeb] (sleep (2 * second) (printf (PrintResults 0 (length [(''7'', crtWeb), (''8'', crtShop), (''9'', crtMail)]))
        (worldRenewFails\<lparr>faults := [None, Some ''denied''],
        trace := [ListCertificates, PrintFound (length [crtWeb, crtShop, crtMail]), ListSecrets]\<rparr>)))) = None"
    by (simp only: first_renewal fst_conv)
  note r = run_aborts_at_first_failure [where rangeOrder = id and remaining = "[crtMail]",
      THEN conjunct2, THEN conjunct2, THEN mp,
      OF conjI [OF fetch_three conjI [OF fetch_three_secrets conjI [OF analyse_three
        conjI [OF ne conjI [OF ord conjI [OF ok second_renewal]]]]]]]
  show ?thesis
    by (rule conjI [OF fetch_three conjI [OF fetch_three_secrets conjI [OF analyse_three
        conjI [OF ne conjI [OF ord conjI [OF ok conjI [OF second_renewal r]]]]]]])
qed
end
